theory Spec2Isabelle
  imports Main "HOL-Library.AList" "HOL-Library.Sublist"
begin

section \<open>The execution tracer of the code visualizer\<close>

text \<open>
  The repository traces user programs with two engines. The Python engine injects the
  script \<^verbatim>\<open>TRACER_SCRIPT\<close> (class \<^verbatim>\<open>CodeTracer\<close>, function \<^verbatim>\<open>trace_code\<close>) into
  Pyodide and calls it from the hook \<^verbatim>\<open>usePyodide\<close>; the C engine steps the JSCPP
  debugger inside the hook \<^verbatim>\<open>useCpp\<close>. The hook \<^verbatim>\<open>useCodeRunner\<close> routes a run to one
  of them. This theory embeds these functions and settles the properties stated about
  them.

  What the host runtimes decide (which exception \<^verbatim>\<open>compile\<close> raises, which trace events
  the interpreter delivers, what the JSCPP debugger reports at each step) is an input of
  the model; what the repository's code computes from these is a definition below. Two
  parts of the code are inputs as well and are named where they enter: the JSON text
  between \<^verbatim>\<open>trace_code\<close> and \<^verbatim>\<open>usePyodide.runCode\<close>, and the block of \<^verbatim>\<open>useCpp.runCode\<close> that
  converts the variables of the JSCPP runtime. A text is a list of characters, one for
  each character of the source's string.
\<close>

subsection \<open>Python values\<close>

text \<open>
  A Python exception as the tracer sees it: the name of its class, its \<^verbatim>\<open>str()\<close>,
  whether it is an instance of \<^verbatim>\<open>Exception\<close> (\<^verbatim>\<open>SystemExit\<close> and \<^verbatim>\<open>KeyboardInterrupt\<close>
  are not), and the message of the JavaScript error that Pyodide throws when the
  exception escapes \<^verbatim>\<open>runPython\<close>.
\<close>

record py_exc =
  exc_type :: string
  exc_str :: string
  is_Exception :: bool
  js_message :: string

text \<open>
  A Python \<^verbatim>\<open>float\<close>: \<open>Finite m e\<close> is the number \<open>m * 2 ^ e\<close>. The tracer copies floats
  and computes nothing from them.
\<close>

datatype float64 = Finite int int | PosInf | NegInf | NaN

text \<open>
  A dictionary key, with what the serializer asks of it: a \<^verbatim>\<open>str\<close> key is used as it is,
  any other key is passed to \<^verbatim>\<open>str()\<close>, which returns a text or raises.
\<close>

datatype dict_key = StrKey string | OtherKey "py_exc + string"

text \<open>
  A Python value. The first argument of every constructor is \<^verbatim>\<open>id(value)\<close>. A set is
  given in its iteration order. \<open>PObject i tn s c\<close> is any other object: \<open>tn\<close> is
  \<^verbatim>\<open>type(value).__name__\<close>, \<open>s\<close> the result of \<^verbatim>\<open>str(value)\<close> (\<open>None\<close> when it raises) and
  \<open>c\<close> is \<^verbatim>\<open>callable(value)\<close>.
\<close>

datatype pyval =
    PNone int
  | PBool int bool
  | PInt int int
  | PFloat int float64
  | PStr int string
  | PList int "pyval list"
  | PTuple int "pyval list"
  | PDict int "(dict_key \<times> pyval) list"
  | PSet int "pyval list"
  | PObject int string "string option" bool

fun py_id :: "pyval \<Rightarrow> int" where
  "py_id (PNone i) = i"
| "py_id (PBool i _) = i"
| "py_id (PInt i _) = i"
| "py_id (PFloat i _) = i"
| "py_id (PStr i _) = i"
| "py_id (PList i _) = i"
| "py_id (PTuple i _) = i"
| "py_id (PDict i _) = i"
| "py_id (PSet i _) = i"
| "py_id (PObject i _ _ _) = i"

fun is_None :: "pyval \<Rightarrow> bool" where
  "is_None (PNone _) = True"
| "is_None _ = False"

fun callable :: "pyval \<Rightarrow> bool" where
  "callable (PObject _ _ _ c) = c"
| "callable _ = False"

text \<open>\<^verbatim>\<open>isinstance(value, (list, dict, set))\<close>\<close>

fun isinstance_list_dict_set :: "pyval \<Rightarrow> bool" where
  "isinstance_list_dict_set (PList _ _) = True"
| "isinstance_list_dict_set (PDict _ _) = True"
| "isinstance_list_dict_set (PSet _ _) = True"
| "isinstance_list_dict_set _ = False"

subsection \<open>The wire format\<close>

text \<open>
  \<^verbatim>\<open>SerializedValue\<close>: \<^verbatim>\<open>{ value, type, id, length?, truncated? }\<close>. The payload of a
  collection is a list of snapshots, or (for a \<^verbatim>\<open>dict\<close>) an ordered mapping from key
  texts to snapshots. An optional field that is not set is \<open>None\<close>.
\<close>

datatype 'a payload =
    VNone
  | VBool bool
  | VInt int
  | VFloat float64
  | VStr string
  | VList "'a list"
  | VDict "(string \<times> 'a) list"

datatype snapshot =
  Snapshot (sv_value: "snapshot payload") (sv_type: string) (sv_id: int)
    (sv_length: "int option") (sv_truncated: "bool option")

type_synonym VariableMap = "(string \<times> snapshot) list"

text \<open>
  A field of a JSON object that may be missing, \<^verbatim>\<open>null\<close>, or hold a value: the tracer
  writes \<^verbatim>\<open>"return_value": None\<close> into a frame when a function returns \<^verbatim>\<open>None\<close>.
\<close>

datatype 'a field = Absent | Null | Present 'a

record ExecutionFrame =
  step :: int
  line :: int
  event :: string
  func :: string
  depth :: int
  variables :: VariableMap
  return_value :: "snapshot field"
  exception :: "(string \<times> string) option"

subsection \<open>\<^verbatim>\<open>CodeTracer.serialize_value\<close>\<close>

definition MAX_STEPS :: int where
  "MAX_STEPS = 1000"

definition MAX_STRING_LENGTH :: nat where
  "MAX_STRING_LENGTH = 100"

definition MAX_LIST_LENGTH :: nat where
  "MAX_LIST_LENGTH = 50"

definition IGNORED_VARS :: "string list" where
  "IGNORED_VARS =
    [''__builtins__'', ''__name__'', ''__doc__'', ''__package__'',
     ''__loader__'', ''__spec__'', ''__annotations__'', ''__cached__'',
     ''__file__'', ''__tracer__'', ''CodeTracer'', ''tracer'', ''trace_code'']"

text \<open>
  \<^verbatim>\<open>for item in items_to_show: serialized_items.append(self.serialize_value(item, depth + 1))\<close>:
  the loop over the items, with the recursive call as \<open>f\<close>; an exception raised for an
  item ends the loop.
\<close>

fun serialize_items :: "('a \<Rightarrow> py_exc + 'b) \<Rightarrow> 'a list \<Rightarrow> 'b list \<Rightarrow> py_exc + 'b list" where
  "serialize_items f [] serialized_items = Inr serialized_items"
| "serialize_items f (item # items) serialized_items =
     (case f item of
        Inl e \<Rightarrow> Inl e
      | Inr s \<Rightarrow> serialize_items f items (serialized_items @ [s]))"

text \<open>\<^verbatim>\<open>key_str = str(k) if not isinstance(k, str) else k\<close>\<close>

fun key_str :: "dict_key \<Rightarrow> py_exc + string" where
  "key_str (StrKey k) = Inr k"
| "key_str (OtherKey r) = r"

text \<open>
  The loop over \<^verbatim>\<open>value.items()\<close> of the \<^verbatim>\<open>dict\<close> branch: it stops at the entry that finds
  \<^verbatim>\<open>count >= 20\<close>; \<^verbatim>\<open>serialized_dict[key_str] = ...\<close> overwrites an entry with the same key
  text in place and appends a new one.
\<close>

fun serialize_entries ::
  "(pyval \<Rightarrow> py_exc + snapshot) \<Rightarrow> (dict_key \<times> pyval) list \<Rightarrow> nat \<Rightarrow> VariableMap
    \<Rightarrow> py_exc + VariableMap" where
  "serialize_entries f [] count serialized_dict = Inr serialized_dict"
| "serialize_entries f ((k, v) # rest) count serialized_dict =
     (if count \<ge> 20 then Inr serialized_dict
      else case key_str k of
        Inl e \<Rightarrow> Inl e
      | Inr ks \<Rightarrow>
          (case f v of
             Inl e \<Rightarrow> Inl e
           | Inr s \<Rightarrow> serialize_entries f rest (count + 1) (AList.update ks s serialized_dict)))"

text \<open>The parameter \<open>d\<close> is the source's \<^verbatim>\<open>depth\<close>.\<close>

function serialize_value :: "pyval \<Rightarrow> int \<Rightarrow> py_exc + snapshot" where
  "serialize_value v d =
    (if d > 3 then Inr (Snapshot (VStr ''...'') ''truncated'' (py_id v) None None)
     else case v of
       PNone obj_id \<Rightarrow> Inr (Snapshot VNone ''NoneType'' obj_id None None)
     | PBool obj_id b \<Rightarrow> Inr (Snapshot (VBool b) ''bool'' obj_id None None)
     | PInt obj_id n \<Rightarrow> Inr (Snapshot (VInt n) ''int'' obj_id None None)
     | PFloat obj_id x \<Rightarrow> Inr (Snapshot (VFloat x) ''float'' obj_id None None)
     | PStr obj_id s \<Rightarrow>
         Inr (Snapshot
           (VStr (if length s > MAX_STRING_LENGTH
                  then take MAX_STRING_LENGTH s @ ''...''
                  else take MAX_STRING_LENGTH s))
           ''str'' obj_id None None)
     | PList obj_id xs \<Rightarrow>
         (case serialize_items (\<lambda>item. serialize_value item (d + 1))
                 (take MAX_LIST_LENGTH xs) [] of
            Inl e \<Rightarrow> Inl e
          | Inr serialized_items \<Rightarrow>
              Inr (Snapshot (VList serialized_items) ''list'' obj_id (Some (int (length xs)))
                    (if length xs > MAX_LIST_LENGTH then Some True else None)))
     | PTuple obj_id xs \<Rightarrow>
         (case serialize_items (\<lambda>item. serialize_value item (d + 1))
                 (take MAX_LIST_LENGTH xs) [] of
            Inl e \<Rightarrow> Inl e
          | Inr serialized_items \<Rightarrow>
              Inr (Snapshot (VList serialized_items) ''tuple'' obj_id (Some (int (length xs)))
                    None))
     | PDict obj_id kvs \<Rightarrow>
         (case serialize_entries (\<lambda>v. serialize_value v (d + 1)) kvs 0 [] of
            Inl e \<Rightarrow> Inl e
          | Inr serialized_dict \<Rightarrow>
              Inr (Snapshot (VDict serialized_dict) ''dict'' obj_id (Some (int (length kvs)))
                    None))
     | PSet obj_id xs \<Rightarrow>
         (case serialize_items (\<lambda>item. serialize_value item (d + 1))
                 (take MAX_LIST_LENGTH xs) [] of
            Inl e \<Rightarrow> Inl e
          | Inr serialized_items \<Rightarrow>
              Inr (Snapshot (VList serialized_items) ''set'' obj_id (Some (int (length xs)))
                    None))
     | PObject obj_id type_name str_result c \<Rightarrow>
         (case str_result of
            Some s \<Rightarrow> Inr (Snapshot (VStr (take MAX_STRING_LENGTH s)) type_name obj_id None None)
          | None \<Rightarrow> Inr (Snapshot (VStr ''<unserializable>'') type_name obj_id None None)))"
  by pat_completeness auto
termination
  by (relation "measure (\<lambda>(v, d). nat (4 - d))") auto

declare serialize_value.simps [simp del]

subsection \<open>\<^verbatim>\<open>CodeTracer.capture_locals\<close>\<close>

definition startswith :: "string \<Rightarrow> string \<Rightarrow> bool" where
  "startswith s p = (take (length p) s = p)"

text \<open>
  The loop over \<^verbatim>\<open>local_vars.items()\<close>. The first test is written as the source has it:
  the inner \<^verbatim>\<open>continue\<close> stands under \<^verbatim>\<open>not name.startswith('__')\<close> and asks for
  \<^verbatim>\<open>name.startswith('__')\<close>.
\<close>

fun capture_loop :: "(string \<times> pyval) list \<Rightarrow> VariableMap \<Rightarrow> py_exc + VariableMap" where
  "capture_loop [] captured = Inr captured"
| "capture_loop ((name, v) # rest) captured =
     (if (if startswith name ''_'' \<and> \<not> startswith name ''__''
          then startswith name ''__'' else False)
      then capture_loop rest captured
      else if name \<in> set IGNORED_VARS then capture_loop rest captured
      else if callable v \<and> \<not> isinstance_list_dict_set v then capture_loop rest captured
      else case serialize_value v 0 of
        Inl e \<Rightarrow> Inl e
      | Inr s \<Rightarrow> capture_loop rest (AList.update name s captured))"

definition capture_locals :: "(string \<times> pyval) list \<Rightarrow> py_exc + VariableMap" where
  "capture_locals local_vars = capture_loop local_vars []"

subsection \<open>\<^verbatim>\<open>CodeTracer.trace_function\<close>\<close>

record CodeTracer =
  frames :: "ExecutionFrame list"
  step_count :: int
  target_filename :: string
  call_depth :: int

text \<open>\<^verbatim>\<open>CodeTracer.__init__\<close>\<close>

definition CodeTracer_init :: "string \<Rightarrow> CodeTracer" where
  "CodeTracer_init filename =
     \<lparr>frames = [], step_count = 0, target_filename = filename, call_depth = 0\<rparr>"

text \<open>
  What \<^verbatim>\<open>sys.settrace\<close> passes to the trace function: the frame object (of which the
  tracer reads \<^verbatim>\<open>f_code.co_filename\<close>, \<^verbatim>\<open>f_code.co_name\<close>, \<^verbatim>\<open>f_lineno\<close> and \<^verbatim>\<open>f_locals\<close>),
  and the event with its argument: the returned value of a \<^verbatim>\<open>return\<close>; for an
  \<^verbatim>\<open>exception\<close> the name of the exception's class (\<open>None\<close> when \<^verbatim>\<open>exc_type\<close> is falsy) and
  the text of \<^verbatim>\<open>str(exc_value)\<close> (\<open>None\<close> when \<^verbatim>\<open>exc_value\<close> is falsy). Any other event name
  (\<^verbatim>\<open>opcode\<close>, \<^verbatim>\<open>c_call\<close>, ...) is an \<open>OtherEvent\<close>.
\<close>

record py_frame =
  co_filename :: string
  co_name :: string
  f_lineno :: int
  f_locals :: "(string \<times> pyval) list"

datatype trace_event =
    CallEvent
  | LineEvent
  | ReturnEvent pyval
  | ExceptionEvent "string option" "string option"
  | OtherEvent string

text \<open>
  The trace function returns itself (\<open>Inr True\<close>), or \<^verbatim>\<open>None\<close> (\<open>Inr False\<close>) once the step
  limit is reached, or raises (\<open>Inl\<close>) when serializing a binding raises. The tracer is
  returned as the call leaves it: the counters are assigned before the frame is built,
  so they keep their new values when building the frame raises.
\<close>

definition trace_function ::
  "CodeTracer \<Rightarrow> py_frame \<Rightarrow> trace_event \<Rightarrow> (py_exc + bool) \<times> CodeTracer" where
  "trace_function self frame ev =
    (if step_count self \<ge> MAX_STEPS then (Inr False, self)
     else if co_filename frame \<noteq> target_filename self then (Inr True, self)
     else case ev of
       CallEvent \<Rightarrow>
         (let self1 = self\<lparr>call_depth := call_depth self + 1\<rparr>;
              self2 = self1\<lparr>step_count := step_count self1 + 1\<rparr>
          in case capture_locals (f_locals frame) of
               Inl e \<Rightarrow> (Inl e, self2)
             | Inr vars \<Rightarrow>
                 (Inr True, self2\<lparr>frames := frames self2 @
                    [\<lparr>step = step_count self2, line = f_lineno frame, event = ''call'',
                      func = co_name frame, depth = call_depth self2, variables = vars,
                      return_value = Absent, exception = None\<rparr>]\<rparr>))
     | LineEvent \<Rightarrow>
         (let self1 = self\<lparr>step_count := step_count self + 1\<rparr>
          in case capture_locals (f_locals frame) of
               Inl e \<Rightarrow> (Inl e, self1)
             | Inr vars \<Rightarrow>
                 (Inr True, self1\<lparr>frames := frames self1 @
                    [\<lparr>step = step_count self1, line = f_lineno frame, event = ''line'',
                      func = co_name frame, depth = call_depth self1, variables = vars,
                      return_value = Absent, exception = None\<rparr>]\<rparr>))
     | ReturnEvent arg \<Rightarrow>
         (let self1 = self\<lparr>step_count := step_count self + 1\<rparr>
          in case (if \<not> is_None arg then map_sum id Present (serialize_value arg 0)
                   else Inr Null) of
               Inl e \<Rightarrow> (Inl e, self1)
             | Inr ret \<Rightarrow>
                 (case capture_locals (f_locals frame) of
                    Inl e \<Rightarrow> (Inl e, self1)
                  | Inr vars \<Rightarrow>
                      (let self2 = self1\<lparr>frames := frames self1 @
                         [\<lparr>step = step_count self1, line = f_lineno frame, event = ''return'',
                           func = co_name frame, depth = call_depth self1, variables = vars,
                           return_value = ret, exception = None\<rparr>]\<rparr>
                       in (Inr True, self2\<lparr>call_depth := max 0 (call_depth self2 - 1)\<rparr>))))
     | ExceptionEvent exc_type_name exc_value_str \<Rightarrow>
         (let self1 = self\<lparr>step_count := step_count self + 1\<rparr>
          in case capture_locals (f_locals frame) of
               Inl e \<Rightarrow> (Inl e, self1)
             | Inr vars \<Rightarrow>
                 (Inr True, self1\<lparr>frames := frames self1 @
                    [\<lparr>step = step_count self1, line = f_lineno frame, event = ''exception'',
                      func = co_name frame, depth = call_depth self1, variables = vars,
                      return_value = Absent,
                      exception = Some (case exc_type_name of Some n \<Rightarrow> n | None \<Rightarrow> ''Unknown'',
                                        case exc_value_str of Some m \<Rightarrow> m | None \<Rightarrow> [])\<rparr>]\<rparr>))
     | OtherEvent name \<Rightarrow> (Inr True, self))"

definition get_trace :: "CodeTracer \<Rightarrow> ExecutionFrame list" where
  "get_trace self = frames self"

text \<open>
  The interpreter calls the trace function for each event in execution order. When the
  trace function raises, the interpreter unsets it and raises the exception inside the
  traced program, so no later event reaches the tracer. After the trace function has
  returned \<^verbatim>\<open>None\<close> the step counter stays at the limit and every later call returns at
  the first test, so the events of a scope whose tracing was switched off can be passed
  or left out with the same result.
\<close>

fun run_events ::
  "CodeTracer \<Rightarrow> (py_frame \<times> trace_event) list \<Rightarrow> py_exc option \<times> CodeTracer" where
  "run_events self [] = (None, self)"
| "run_events self ((frame, ev) # rest) =
     (case trace_function self frame ev of
        (Inl e, self') \<Rightarrow> (Some e, self')
      | (Inr _, self') \<Rightarrow> run_events self' rest)"

subsection \<open>\<^verbatim>\<open>trace_code\<close>\<close>

record TraceResult =
  success :: bool
  error :: "string option"
  frames :: "ExecutionFrame list"

text \<open>\<^verbatim>\<open>str()\<close> of an integer, as the f-string of the error message formats \<^verbatim>\<open>e.lineno\<close>.\<close>

function str_nat :: "nat \<Rightarrow> string" where
  "str_nat n =
     (if n < 10 then [''0123456789'' ! n]
      else str_nat (n div 10) @ [''0123456789'' ! (n mod 10)])"
  by pat_completeness auto
termination
  by (relation "measure id") auto

declare str_nat.simps [simp del]

definition str_int :: "int \<Rightarrow> string" where
  "str_int i = (if i < 0 then ''-'' @ str_nat (nat (- i)) else str_nat (nat i))"

text \<open>
  What \<^verbatim>\<open>compile(code, "<user_code>", "exec")\<close> does: it returns a code object, raises a
  \<^verbatim>\<open>SyntaxError\<close> with its \<^verbatim>\<open>msg\<close> and \<^verbatim>\<open>lineno\<close> (which can be \<^verbatim>\<open>None\<close>), or raises
  another exception (a \<^verbatim>\<open>ValueError\<close> for a source with a null byte).
\<close>

datatype compile_outcome =
    Compiled
  | SyntaxError string "int option"
  | CompileRaises py_exc

text \<open>
  How \<^verbatim>\<open>exec(compiled, exec_globals, exec_locals)\<close> ends: it returns, it raises, or it
  never ends (a program that loops forever).
\<close>

datatype exec_result = Returns | Raises py_exc | NeverEnds

text \<open>
  A source program, as the interpreter behaves on it: what \<^verbatim>\<open>compile\<close> does, the trace
  events its execution delivers in order, and how \<^verbatim>\<open>exec\<close> ends, given the exception, if
  any, that the trace function raised into the program. For a program that never ends,
  the list holds the events up to the last one that can change the tracer (any longer
  part of its endless stream of events will do).
\<close>

record py_program =
  compile_result :: compile_outcome
  events :: "(py_frame \<times> trace_event) list"
  exec_outcome :: "py_exc option \<Rightarrow> exec_result"

text \<open>
  \<^verbatim>\<open>trace_code\<close> returns the result that it passes to \<^verbatim>\<open>json.dumps\<close> (\<open>Some (Inr r)\<close>), or
  raises (\<open>Some (Inl e)\<close>): a \<^verbatim>\<open>SyntaxError\<close> of \<^verbatim>\<open>compile\<close> and an \<^verbatim>\<open>Exception\<close> of \<^verbatim>\<open>exec\<close> are
  caught, anything else escapes. The trace function only stops recording at its limit;
  nothing interrupts \<^verbatim>\<open>exec\<close>, so \<^verbatim>\<open>trace_code\<close> does not return (\<open>None\<close>) when the program
  never ends.
\<close>

definition trace_code :: "py_program \<Rightarrow> (py_exc + TraceResult) option" where
  "trace_code p =
    (let tracer = CodeTracer_init ''<user_code>''
     in case compile_result p of
       SyntaxError msg lineno \<Rightarrow>
         Some (Inr \<lparr>success = False,
              error = Some (''SyntaxError: '' @ msg @ '' at line '' @
                            (case lineno of None \<Rightarrow> ''None'' | Some n \<Rightarrow> str_int n)),
              frames = []\<rparr>)
     | CompileRaises e \<Rightarrow> Some (Inl e)
     | Compiled \<Rightarrow>
         (case run_events tracer (events p) of
            (trace_error, tracer') \<Rightarrow>
              (case exec_outcome p trace_error of
                 Returns \<Rightarrow>
                   Some (Inr \<lparr>success = True, error = None, frames = get_trace tracer'\<rparr>)
               | Raises e \<Rightarrow>
                   if is_Exception e
                   then Some (Inr \<lparr>success = False,
                                   error = Some (exc_type e @ '': '' @ exc_str e),
                                   frames = get_trace tracer'\<rparr>)
                   else Some (Inl e)
               | NeverEnds \<Rightarrow> None)))"

subsection \<open>The hook \<^verbatim>\<open>usePyodide\<close>\<close>

text \<open>
  A value thrown in JavaScript: an \<^verbatim>\<open>Error\<close> with its message, or anything else. The
  \<^verbatim>\<open>catch\<close> blocks of both hooks read \<^verbatim>\<open>err instanceof Error ? err.message : default\<close>.
\<close>

datatype js_thrown = JsError string | JsNonError

fun error_message :: "js_thrown \<Rightarrow> string \<Rightarrow> string" where
  "error_message (JsError m) dflt = m"
| "error_message JsNonError dflt = dflt"

text \<open>The state of a hook that \<^verbatim>\<open>useState\<close> holds.\<close>

record hook_state =
  isLoading :: bool
  isReady :: bool
  hook_error :: "string option"
  hook_frames :: "ExecutionFrame list option"

text \<open>
  A loaded Pyodide instance with the tracer script injected, as a function of the text
  passed to \<^verbatim>\<open>runPython\<close>: the call throws before \<^verbatim>\<open>trace_code\<close> is entered (the text is
  not a valid Python call), or \<^verbatim>\<open>trace_code\<close> runs on a program. The hook keeps it in
  \<^verbatim>\<open>pyodideRef\<close>, which is \<^verbatim>\<open>null\<close> until initialization has finished.
\<close>

record usePyodide_state = hook_state +
  pyodideRef :: "(string \<Rightarrow> js_thrown + py_program) option"

text \<open>
  \<^verbatim>\<open>String.prototype.replace\<close> with a global pattern that matches one fixed text:
  every match, from left to right and without overlap, is replaced.
\<close>

function replace_all :: "string \<Rightarrow> string \<Rightarrow> string \<Rightarrow> string" where
  "replace_all pat rep [] = []"
| "replace_all pat rep (c # cs) =
     (if pat \<noteq> [] \<and> take (length pat) (c # cs) = pat
      then rep @ replace_all pat rep (drop (length pat) (c # cs))
      else c # replace_all pat rep cs)"
  by pat_completeness auto
termination
  by (relation "measure (\<lambda>(pat, rep, s). length s)") (auto simp: Suc_le_eq)

definition backslash :: char where
  "backslash = CHR 0x5C"

definition dquote :: char where
  "dquote = CHR 0x22"

definition newline :: char where
  "newline = CHR 0x0A"

definition escapedCode :: "string \<Rightarrow> string" where
  "escapedCode code =
     replace_all [newline] [backslash, CHR ''n'']
       (replace_all [dquote, dquote, dquote]
          [backslash, dquote, backslash, dquote, backslash, dquote]
          (replace_all [backslash] [backslash, backslash] code))"

definition pythonCall :: "string \<Rightarrow> string" where
  "pythonCall code =
     ''trace_code('' @ [dquote, dquote, dquote] @ escapedCode code @ [dquote, dquote, dquote] @ '')''"

text \<open>
  \<^verbatim>\<open>usePyodide.runCode\<close>. The JSON text that \<^verbatim>\<open>trace_code\<close> returns and \<^verbatim>\<open>JSON.parse\<close> reads
  back is not modelled: the result passes through as it is. The call returns nothing
  (\<open>None\<close>) when \<^verbatim>\<open>trace_code\<close> does not return.
\<close>

definition usePyodide_runCode ::
  "usePyodide_state \<Rightarrow> string \<Rightarrow> (TraceResult \<times> usePyodide_state) option" where
  "usePyodide_runCode st code =
    (case pyodideRef st of
       None \<Rightarrow>
         Some (\<lparr>success = False, error = Some ''Pyodide is not initialized'', frames = []\<rparr>,
               st)
     | Some runPython \<Rightarrow>
         (case runPython (pythonCall code) of
            Inl err \<Rightarrow>
              Some (\<lparr>success = False,
                     error = Some (error_message err ''Unknown error running code''),
                     frames = []\<rparr>, st)
          | Inr program \<Rightarrow>
              (case trace_code program of
                 None \<Rightarrow> None
               | Some (Inl e) \<Rightarrow>
                   Some (\<lparr>success = False, error = Some (js_message e), frames = []\<rparr>, st)
               | Some (Inr result) \<Rightarrow>
                   Some (result, st\<lparr>hook_frames := Some (frames result)\<rparr>))))"

subsection \<open>How Python reads the call text\<close>

text \<open>
  \<^verbatim>\<open>runPython\<close> hands the call text to the Python parser. The text starts with
  \<^verbatim>\<open>trace_code(\<close> and a string literal in triple double quotes. Inside the literal a
  backslash takes the next character with it: \<open>escapedCode\<close> writes a doubled backslash for
  a backslash, a backslash before each quote of three quotes in a row, and a backslash
  and \<^verbatim>\<open>n\<close> for a line feed, and these are read back so (the other escapes of Python
  are not modelled: \<open>escapedCode\<close> doubles every backslash of the source, so it writes no
  other). The first
  three quotes in a row end the literal. In a call text that \<open>pythonCall\<close> writes, what
  follows is the closing parenthesis, with no, one or two quotes before it. Two quotes
  are an empty literal, which Python joins to the first; one quote opens a literal that
  never ends, a syntax error of the call itself. No other rest arises, and any is
  refused here.
\<close>

definition read_escape :: "char \<Rightarrow> string" where
  "read_escape e =
     (if e = backslash then [backslash]
      else if e = dquote then [dquote]
      else if e = CHR ''n'' then [newline]
      else [backslash, e])"

fun read_body :: "string \<Rightarrow> string \<Rightarrow> (string \<times> string) option" where
  "read_body content [] = None"
| "read_body content [c] = None"
| "read_body content (c # e # rest) =
     (if c = backslash then read_body (content @ read_escape e) rest
      else if take 3 (c # e # rest) = [dquote, dquote, dquote]
      then Some (content, drop 3 (c # e # rest))
      else read_body (content @ [c]) (e # rest))"

definition read_call :: "string \<Rightarrow> string option" where
  "read_call call_text =
     (if take 14 call_text = ''trace_code('' @ [dquote, dquote, dquote]
      then (case read_body [] (drop 14 call_text) of
              None \<Rightarrow> None
            | Some (content, rest) \<Rightarrow>
                if rest = '')'' \<or> rest = [dquote, dquote] @ '')'' then Some content else None)
      else None)"

text \<open>
  The \<^verbatim>\<open>runPython\<close> of a Pyodide instance whose Python behaves as \<open>interp\<close> says for each
  source text: a call text that Python cannot read throws \<open>fault\<close>, any other runs
  \<^verbatim>\<open>trace_code\<close> on the text that Python reads from the literal.
\<close>

definition pyodide_runPython ::
  "js_thrown \<Rightarrow> (string \<Rightarrow> py_program) \<Rightarrow> string \<Rightarrow> js_thrown + py_program" where
  "pyodide_runPython fault interp call_text =
     (case read_call call_text of
        None \<Rightarrow> Inl fault
      | Some source \<Rightarrow> Inr (interp source))"

subsection \<open>The hook \<^verbatim>\<open>useCpp\<close>\<close>

text \<open>
  What one turn of the stepping loop observes of the JSCPP debugger: the text that
  \<^verbatim>\<open>next()\<close> passed to \<^verbatim>\<open>stdio.write\<close>, its result (\<open>None\<close> for \<^verbatim>\<open>false\<close>, else the exit
  code), the flag \<^verbatim>\<open>done\<close> read after it, \<^verbatim>\<open>nextNode()\<close> (\<open>None\<close> for \<^verbatim>\<open>null\<close>, else the
  node's \<^verbatim>\<open>sLine\<close>), and the \<^verbatim>\<open>variables\<close> object that the turn builds from
  \<^verbatim>\<open>debuggerInstance.variable()\<close>. The filter and the JSCPP value conversion that build
  this object are not embedded: the loop only asks whether it has a key. A turn in
  which \<^verbatim>\<open>next()\<close> or \<^verbatim>\<open>nextNode()\<close> throws is \<open>Throws\<close>.
\<close>

record dbg_obs =
  written :: string
  stepResult :: "int option"
  dbg_done :: bool
  node :: "int option"
  captured_vars :: VariableMap

datatype dbg_step = Throws js_thrown | Stepped dbg_obs

text \<open>
  \<^verbatim>\<open>jscpp.run(code, '', {debug: true, ...})\<close>: it throws (the program does not compile),
  returns something that is not a debugger, or returns a debugger, given by what its
  successive calls of \<^verbatim>\<open>next()\<close> do (\<open>dbg n\<close> is call number \<open>n + 1\<close>).
\<close>

datatype jscpp_result =
    RunThrows js_thrown
  | NotDebugger
  | Debugger "nat \<Rightarrow> dbg_step"

text \<open>
  The local variables of \<^verbatim>\<open>useCpp.runCode\<close> that the loop assigns; \<open>outputText\<close> is the
  source's \<^verbatim>\<open>output\<close>.
\<close>

record run_state =
  capturedFrames :: "ExecutionFrame list"
  stepCount :: nat
  outputText :: string
  lastLine :: int

text \<open>
  \<^verbatim>\<open>const capturedFrames = []; let stepCount = 0; let output = ''; let lastLine = 0;\<close>
\<close>

definition initial_run_state :: run_state where
  "initial_run_state = \<lparr>capturedFrames = [], stepCount = 0, outputText = [], lastLine = 0\<rparr>"

text \<open>The constant \<^verbatim>\<open>MAX_STEPS\<close> of \<^verbatim>\<open>useCpp.runCode\<close>.\<close>

definition cpp_MAX_STEPS :: nat where
  "cpp_MAX_STEPS = 1000"

definition line_frame :: "nat \<Rightarrow> int \<Rightarrow> VariableMap \<Rightarrow> ExecutionFrame" where
  "line_frame n currentLine vs =
     \<lparr>step = int n, line = currentLine, event = ''line'', func = ''main'', depth = 1,
      variables = vs, return_value = Absent, exception = None\<rparr>"

text \<open>
  One turn of the loop after the step limit has been checked: the current line, the
  update of \<^verbatim>\<open>lastLine\<close>, and the frame, which is pushed only if the line is positive or
  a variable was captured.
\<close>

definition loop_body :: "dbg_obs \<Rightarrow> run_state \<Rightarrow> run_state" where
  "loop_body ob st1 =
    (let currentLine = (case node ob of Some sLine \<Rightarrow> sLine | None \<Rightarrow> lastLine st1);
         st2 = (case node ob of Some sLine \<Rightarrow> st1\<lparr>lastLine := sLine\<rparr> | None \<Rightarrow> st1)
     in if currentLine > 0 \<or> length (captured_vars ob) > 0
        then st2\<lparr>capturedFrames := capturedFrames st2 @
               [line_frame (stepCount st2) currentLine (captured_vars ob)]\<rparr>
        else st2)"

text \<open>
  \<^verbatim>\<open>stepResult = debuggerInstance.next(); stepCount++;\<close> with the text that the call
  wrote appended to the output.
\<close>

definition after_next :: "dbg_obs \<Rightarrow> run_state \<Rightarrow> run_state" where
  "after_next ob st = st\<lparr>outputText := outputText st @ written ob, stepCount := stepCount st + 1\<rparr>"

text \<open>
  The \<^verbatim>\<open>do ... while (stepResult === false && !debuggerInstance.done)\<close> loop. Each turn
  calls \<^verbatim>\<open>next()\<close> (which may write to the output), counts the step and leaves by
  \<^verbatim>\<open>break\<close> when the count exceeds the limit. The loop ends with the thrown value when
  a call throws, and with \<open>None\<close> when it leaves by \<^verbatim>\<open>break\<close> or by its condition.
\<close>

function step_loop :: "(nat \<Rightarrow> dbg_step) \<Rightarrow> run_state \<Rightarrow> js_thrown option \<times> run_state" where
  "step_loop dbg st =
    (case dbg (stepCount st) of
       Throws err \<Rightarrow> (Some err, st)
     | Stepped ob \<Rightarrow>
         (let st1 = after_next ob st
          in if stepCount st1 > cpp_MAX_STEPS then (None, st1)
             else
               (let st3 = loop_body ob st1
                in if stepResult ob = None \<and> \<not> dbg_done ob then step_loop dbg st3
                   else (None, st3))))"
  by pat_completeness auto
termination
  by (relation "measure (\<lambda>(dbg, st). cpp_MAX_STEPS + 1 - stepCount st)")
     (auto simp: loop_body_def after_next_def Let_def split: option.splits)

declare step_loop.simps [simp del]

text \<open>
  \<^verbatim>\<open>String.prototype.trim\<close> on a text of code units below 256: of these it strips the
  tab, line feed, vertical tab, form feed, carriage return, space and no-break space.
\<close>

definition is_js_space :: "char \<Rightarrow> bool" where
  "is_js_space c = (c \<in> set [CHR 0x09, CHR 0x0A, CHR 0x0B, CHR 0x0C, CHR 0x0D, CHR 0x20, CHR 0xA0])"

definition trim :: "string \<Rightarrow> string" where
  "trim s = rev (dropWhile is_js_space (rev (dropWhile is_js_space s)))"

definition stdout_frame :: "nat \<Rightarrow> string \<Rightarrow> ExecutionFrame" where
  "stdout_frame n out =
     \<lparr>step = int n + 1, line = 0, event = ''return'', func = ''main'', depth = 0,
      variables = [],
      return_value = Present (Snapshot (VStr (trim out)) ''stdout'' 0 None None),
      exception = None\<rparr>"

text \<open>
  \<^verbatim>\<open>useCpp.runCode\<close>, given the result of \<^verbatim>\<open>await loadJSCPP()\<close>: the import fails, or it
  yields the module's \<^verbatim>\<open>run\<close>.
\<close>

definition cpp_catch ::
  "hook_state \<Rightarrow> js_thrown \<Rightarrow> ExecutionFrame list \<Rightarrow> TraceResult \<times> hook_state" where
  "cpp_catch hs err fs =
    (let errorMessage = error_message err ''Unknown error running C code''
     in (\<lparr>success = False, error = Some errorMessage, frames = fs\<rparr>,
         hs\<lparr>hook_error := Some errorMessage, hook_frames := Some fs, isLoading := False\<rparr>))"

definition useCpp_runCode ::
  "(js_thrown + (string \<Rightarrow> jscpp_result)) \<Rightarrow> hook_state \<Rightarrow> string
     \<Rightarrow> TraceResult \<times> hook_state" where
  "useCpp_runCode loadJSCPP hs code =
    (let hs1 = hs\<lparr>isLoading := True, hook_error := None\<rparr>
     in case loadJSCPP of
       Inl err \<Rightarrow> cpp_catch hs1 err []
     | Inr jscpp_run \<Rightarrow>
         (case jscpp_run code of
            RunThrows err \<Rightarrow> cpp_catch hs1 err []
          | NotDebugger \<Rightarrow>
              (\<lparr>success = False,
                error = Some ''Debug mode is not available. Check JSCPP configuration.'',
                frames = []\<rparr>,
               hs1\<lparr>isLoading := False\<rparr>)
          | Debugger dbg \<Rightarrow>
              (case step_loop dbg initial_run_state of
                 (Some err, st) \<Rightarrow> cpp_catch hs1 err (capturedFrames st)
               | (None, st) \<Rightarrow>
                   (let fs = (if outputText st \<noteq> []
                              then capturedFrames st @ [stdout_frame (stepCount st) (outputText st)]
                              else capturedFrames st)
                    in (\<lparr>success = True, error = None, frames = fs\<rparr>,
                        hs1\<lparr>hook_frames := Some fs, isLoading := False\<rparr>)))))"

text \<open>The state \<^verbatim>\<open>useCpp\<close> starts with: \<^verbatim>\<open>isReady\<close> is \<^verbatim>\<open>useState(true)\<close> and has no setter.\<close>

definition useCpp_init :: hook_state where
  "useCpp_init = \<lparr>isLoading = False, isReady = True, hook_error = None, hook_frames = None\<rparr>"

text \<open>The state \<^verbatim>\<open>usePyodide\<close> starts with.\<close>

definition usePyodide_init :: usePyodide_state where
  "usePyodide_init =
     \<lparr>isLoading = True, isReady = False, hook_error = None, hook_frames = None,
      pyodideRef = None\<rparr>"

subsection \<open>The hook \<^verbatim>\<open>useCodeRunner\<close>\<close>

datatype Language = python | c


subsection \<open>Notions used in the statements\<close>

text \<open>
  The events that the trace function records: those of the traced file whose name is
  \<^verbatim>\<open>call\<close>, \<^verbatim>\<open>line\<close>, \<^verbatim>\<open>return\<close> or \<^verbatim>\<open>exception\<close>, as long as the step counter is below
  the limit. A frame list is numbered when frame \<open>i\<close> carries step \<open>i + 1\<close>. For the C
  engine: what a call of \<^verbatim>\<open>next()\<close> wrote, whether the loop goes on after it, whether it
  returned, and whether the turn has a positive line of its own or a captured variable
  (so that its frame is pushed).
\<close>

fun recorded_event :: "trace_event \<Rightarrow> bool" where
  "recorded_event (OtherEvent _) = False"
| "recorded_event _ = True"

definition recordable :: "string \<Rightarrow> py_frame \<times> trace_event \<Rightarrow> bool" where
  "recordable filename fe = (co_filename (fst fe) = filename \<and> recorded_event (snd fe))"

definition recorded :: "CodeTracer \<Rightarrow> py_frame \<Rightarrow> trace_event \<Rightarrow> bool" where
  "recorded self frame ev =
     (step_count self < MAX_STEPS \<and> recordable (target_filename self) (frame, ev))"

definition numbered :: "ExecutionFrame list \<Rightarrow> bool" where
  "numbered fs = (\<forall>i<length fs. step (fs ! i) = int i + 1)"

text \<open>While no call has raised, the step counter is the number of frames.\<close>

definition in_step :: "CodeTracer \<Rightarrow> bool" where
  "in_step self =
     (step_count self = int (length (CodeTracer.frames self)) \<and> numbered (CodeTracer.frames self))"

fun written_by :: "dbg_step \<Rightarrow> string" where
  "written_by (Stepped ob) = written ob"
| "written_by (Throws err) = []"




definition is_line_frame :: "ExecutionFrame \<Rightarrow> bool" where
  "is_line_frame f =
     (event f = ''line'' \<and> func f = ''main'' \<and> depth f = 1 \<and> return_value f = Absent)"

definition steps_increase :: "nat \<Rightarrow> ExecutionFrame list \<Rightarrow> bool" where
  "steps_increase n fs =
     (length fs \<le> n \<and> sorted_wrt (<) (map step fs) \<and> (\<forall>f\<in>set fs. step f \<le> int n) \<and>
      (\<forall>i<length fs. int i + 1 \<le> step (fs ! i)))"

text \<open>
  A binding passes the filter of \<^verbatim>\<open>capture_locals\<close> when its name is not on the list
  \<open>IGNORED_VARS\<close> and its value is not a callable other than a list, dict or set.
\<close>

definition kept :: "string \<Rightarrow> pyval \<Rightarrow> bool" where
  "kept name v = (name \<notin> set IGNORED_VARS \<and> \<not> (callable v \<and> \<not> isinstance_list_dict_set v))"

subsection \<open>Example runs\<close>

text \<open>
  A C program that prints \<^verbatim>\<open>hi\<close> from line 3 and ends: the second call of \<^verbatim>\<open>next()\<close>
  returns the exit code, and the debugger then reports no positive line (here \<open>-1\<close>).
\<close>

definition dbg_hello :: "nat \<Rightarrow> dbg_step" where
  "dbg_hello n =
     (if n = 0
      then Stepped \<lparr>written = ''hi '', stepResult = None, dbg_done = False, node = Some 3,
                    captured_vars = []\<rparr>
      else Stepped \<lparr>written = [], stepResult = Some 0, dbg_done = True, node = Some (- 1),
                    captured_vars = []\<rparr>)"


text \<open>The exception that \<^verbatim>\<open>str(k)\<close> raises for a key whose \<^verbatim>\<open>__str__\<close> raises.\<close>

definition boom :: py_exc where
  "boom = \<lparr>exc_type = ''ValueError'', exc_str = ''boom'', is_Exception = True,
           js_message = ''PythonError: ValueError: boom''\<rparr>"

text \<open>
  A program that handles no exception of the trace function: \<^verbatim>\<open>exec\<close> returns when the
  trace function has not raised and raises what the trace function raised.
\<close>

definition unhandled :: "py_exc option \<Rightarrow> exec_result" where
  "unhandled raised = (case raised of None \<Rightarrow> Returns | Some e \<Rightarrow> Raises e)"

text \<open>
  The Python program \<^verbatim>\<open>x = 1\<close>: the module is called, its line runs, and it returns
  \<^verbatim>\<open>None\<close>. \<open>prog_loop\<close> is a program whose only line runs 1001 times and which then ends.
\<close>

definition user_frame :: "int \<Rightarrow> (string \<times> pyval) list \<Rightarrow> py_frame" where
  "user_frame l locals =
     \<lparr>co_filename = ''<user_code>'', co_name = ''<module>'', f_lineno = l, f_locals = locals\<rparr>"

definition prog_assign :: py_program where
  "prog_assign =
     \<lparr>compile_result = Compiled,
      events = [(user_frame 1 [], CallEvent), (user_frame 1 [], LineEvent),
                (user_frame 1 [(''x'', PInt 10 1)], ReturnEvent (PNone 0))],
      exec_outcome = unhandled\<rparr>"


text \<open>
  A Python that is asked about two texts: \<^verbatim>\<open>x = 1\<close> followed by a blank, which it runs as
  \<open>prog_assign\<close>, and the same text followed by two double quotes, which does not compile
  (a number cannot be followed by a string literal). Here it rejects every other text
  as well.
\<close>

definition python_example :: "string \<Rightarrow> py_program" where
  "python_example source =
     (if source = ''x = 1 '' then prog_assign
      else \<lparr>compile_result = SyntaxError ''invalid syntax'' (Some 1), events = [],
            exec_outcome = unhandled\<rparr>)"

definition pyodide_example :: usePyodide_state where
  "pyodide_example =
     \<lparr>isLoading = False, isReady = True, hook_error = None, hook_frames = None,
      pyodideRef = Some (pyodide_runPython (JsError ''SyntaxError'') python_example)\<rparr>"





text \<open>
  What a tracer shows of itself: the number of its frames, its step counter and its call
  depth.
\<close>

definition tracer_summary :: "CodeTracer \<Rightarrow> nat \<times> int \<times> int" where
  "tracer_summary self = (length (CodeTracer.frames self), step_count self, call_depth self)"

text \<open>What a result shows of itself: success, error and the number of frames.\<close>

definition summary :: "TraceResult \<Rightarrow> bool \<times> string option \<times> nat" where
  "summary r = (success r, error r, length (frames r))"

section \<open>Properties\<close>

subsection \<open>Auxiliary facts\<close>

lemma stepCount_loop_body [simp]: "stepCount (loop_body ob st) = stepCount st"
  by (simp add: loop_body_def Let_def split: option.splits)

lemma outputText_loop_body [simp]: "outputText (loop_body ob st) = outputText st"
  by (simp add: loop_body_def Let_def split: option.splits)

lemma serialize_items_map:
  "(\<And>x. x \<in> set xs \<Longrightarrow> f x = Inr (g x)) \<Longrightarrow> serialize_items f xs acc = Inr (acc @ map g xs)"
  by (induction xs arbitrary: acc) auto

lemma serialize_items_length:
  "serialize_items f xs acc = Inr ys \<Longrightarrow> length ys = length acc + length xs"
  by (induction xs arbitrary: acc) (auto split: sum.splits)

lemma serialize_value_int:
  "d \<le> 3 \<Longrightarrow> serialize_value (PInt i n) d = Inr (Snapshot (VInt n) ''int'' i None None)"
  by (subst serialize_value.simps) simp

lemma str_int_3: "str_int 3 = ''3''"
  by (simp add: str_int_def str_nat.simps)



lemma trace_function_skip:
  "\<not> recorded self frame ev \<Longrightarrow> \<exists>b. trace_function self frame ev = (Inr b, self)"
  by (cases ev) (auto simp: recorded_def recordable_def trace_function_def)

lemma trace_function_recorded:
  assumes "recorded self frame ev" and "trace_function self frame ev = (res, self')"
  shows "target_filename self' = target_filename self \<and>
         step_count self' = step_count self + 1 \<and>
         (case res of
            Inl e \<Rightarrow> CodeTracer.frames self' = CodeTracer.frames self
          | Inr b \<Rightarrow> \<exists>f. CodeTracer.frames self' = CodeTracer.frames self @ [f] \<and>
                        step f = step_count self + 1)"
proof (cases ev)
  case CallEvent
  with assms show ?thesis
    by (auto simp: recorded_def recordable_def trace_function_def Let_def split: sum.splits)
next
  case LineEvent
  with assms show ?thesis
    by (auto simp: recorded_def recordable_def trace_function_def Let_def split: sum.splits)
next
  case (ReturnEvent arg)
  with assms show ?thesis
    by (auto simp: recorded_def recordable_def trace_function_def Let_def split: sum.splits if_splits)
next
  case (ExceptionEvent tn m)
  with assms show ?thesis
    by (auto simp: recorded_def recordable_def trace_function_def Let_def split: sum.splits)
next
  case (OtherEvent n)
  with assms show ?thesis by (simp add: recorded_def recordable_def)
qed

lemma numbered_append:
  "numbered fs \<Longrightarrow> step f = int (length fs) + 1 \<Longrightarrow> numbered (fs @ [f])"
  by (auto simp: numbered_def nth_append less_Suc_eq)

lemma run_events_numbered:
  assumes "in_step self" and "run_events self evs = (raised, self')"
  shows "numbered (CodeTracer.frames self') \<and> (raised = None \<longrightarrow> in_step self')"
  using assms
proof (induction evs arbitrary: self)
  case Nil
  then show ?case by (simp add: in_step_def)
next
  case (Cons fe evs)
  obtain frame ev where fe: "fe = (frame, ev)" by (cases fe)
  obtain res self1 where tf: "trace_function self frame ev = (res, self1)"
    by (cases "trace_function self frame ev")
  show ?case
  proof (cases "recorded self frame ev")
    case False
    then have "self1 = self" and "\<exists>b. res = Inr b"
      using trace_function_skip [OF False] tf by auto
    then show ?thesis
      using Cons.prems Cons.IH [of self] tf fe by auto
  next
    case True
    note rec = trace_function_recorded [OF True tf]
    show ?thesis
    proof (cases res)
      case (Inl e)
      then have "self' = self1" using Cons.prems(2) tf fe by simp
      then show ?thesis
        using rec Inl Cons.prems(1) Cons.prems(2) tf fe by (auto simp: in_step_def)
    next
      case (Inr b)
      then obtain f where f: "CodeTracer.frames self1 = CodeTracer.frames self @ [f]"
        "step f = step_count self + 1"
        using rec by auto
      have "in_step self1"
        using f rec Cons.prems(1) by (auto simp: in_step_def intro: numbered_append)
      moreover have "run_events self1 evs = (raised, self')"
        using Cons.prems(2) tf fe Inr by simp
      ultimately show ?thesis by (rule Cons.IH)
    qed
  qed
qed


lemma capturedFrames_loop_body:
  "capturedFrames (loop_body ob st) = capturedFrames st \<or>
   (\<exists>l. capturedFrames (loop_body ob st) =
          capturedFrames st @ [line_frame (stepCount st) l (captured_vars ob)])"
  by (auto simp: loop_body_def Let_def split: option.splits)


lemma step_loop_invariant:
  assumes "step_loop dbg st = (thrown, st')" and "I st"
    and "\<And>s ob. I s \<Longrightarrow> dbg (stepCount s) = Stepped ob \<Longrightarrow>
           I (after_next ob s) \<and> I (loop_body ob (after_next ob s))"
  shows "I st'"
  using assms
proof (induction dbg st rule: step_loop.induct)
  case (1 dbg st)
  show ?case
  proof (cases "dbg (stepCount st)")
    case (Throws err)
    with "1.prems" show ?thesis by (simp add: step_loop.simps)
  next
    case (Stepped ob)
    define st1 where "st1 = after_next ob st"
    define st3 where "st3 = loop_body ob st1"
    have I13: "I st1 \<and> I st3"
      unfolding st3_def st1_def using "1.prems"(2) Stepped by (rule "1.prems"(3))
    show ?thesis
    proof (cases "stepCount st1 > cpp_MAX_STEPS")
      case True
      have "step_loop dbg st = (None, st1)"
        using Stepped True by (subst step_loop.simps) (simp add: st1_def Let_def)
      with "1.prems"(1) I13 show ?thesis by simp
    next
      case False
      show ?thesis
      proof (cases "stepResult ob = None \<and> \<not> dbg_done ob")
        case True
        have "step_loop dbg st = step_loop dbg st3"
          using Stepped False True by (subst step_loop.simps) (simp add: st1_def st3_def Let_def)
        with "1.prems"(1) have "step_loop dbg st3 = (thrown, st')" by simp
        then show ?thesis
          using "1.IH" [OF Stepped st1_def False st3_def True _ _ "1.prems"(3)] I13 by blast
      next
        case F2: False
        have "step_loop dbg st = (None, st3)"
          using Stepped False F2 by (subst step_loop.simps) (auto simp: st1_def st3_def Let_def)
        with "1.prems"(1) I13 show ?thesis by simp
      qed
    qed
  qed
qed

lemma is_line_frame_line_frame [simp]: "is_line_frame (line_frame n l vs)"
  by (simp add: is_line_frame_def line_frame_def)

lemma capturedFrames_after_next [simp]: "capturedFrames (after_next ob s) = capturedFrames s"
  by (simp add: after_next_def)

lemma stepCount_after_next [simp]: "stepCount (after_next ob s) = stepCount s + 1"
  by (simp add: after_next_def)

lemma outputText_after_next [simp]: "outputText (after_next ob s) = outputText s @ written ob"
  by (simp add: after_next_def)

lemma step_loop_line_frames:
  assumes "step_loop dbg st = (thrown, st')" and "\<forall>f\<in>set (capturedFrames st). is_line_frame f"
  shows "\<forall>f\<in>set (capturedFrames st'). is_line_frame f"
proof (rule step_loop_invariant [where I = "\<lambda>s. \<forall>f\<in>set (capturedFrames s). is_line_frame f", OF assms])
  fix s :: run_state and ob :: dbg_obs
  assume a: "\<forall>f\<in>set (capturedFrames s). is_line_frame f"
  have "\<forall>f\<in>set (capturedFrames (loop_body ob (after_next ob s))). is_line_frame f"
    using a capturedFrames_loop_body [of ob "after_next ob s"] by auto
  then show "(\<forall>f\<in>set (capturedFrames (after_next ob s)). is_line_frame f) \<and>
         (\<forall>f\<in>set (capturedFrames (loop_body ob (after_next ob s))). is_line_frame f)"
    using a by simp
qed

lemma step_loop_output:
  assumes "step_loop dbg st = (thrown, st')"
  shows "stepCount st \<le> stepCount st' \<and>
         outputText st' =
           outputText st @ concat (map (\<lambda>n. written_by (dbg n)) [stepCount st..<stepCount st'])"
proof (rule step_loop_invariant [where I = "\<lambda>s. stepCount st \<le> stepCount s \<and>
         outputText s =
           outputText st @ concat (map (\<lambda>n. written_by (dbg n)) [stepCount st..<stepCount s])",
         OF assms])
  show "stepCount st \<le> stepCount st \<and>
    outputText st = outputText st @ concat (map (\<lambda>n. written_by (dbg n)) [stepCount st..<stepCount st])"
    by simp
next
  fix s :: run_state and ob :: dbg_obs
  assume a: "stepCount st \<le> stepCount s \<and>
         outputText s =
           outputText st @ concat (map (\<lambda>n. written_by (dbg n)) [stepCount st..<stepCount s])"
    and d: "dbg (stepCount s) = Stepped ob"
  then show "(stepCount st \<le> stepCount (after_next ob s) \<and>
         outputText (after_next ob s) =
           outputText st @ concat (map (\<lambda>n. written_by (dbg n)) [stepCount st..<stepCount (after_next ob s)]))
     \<and> (stepCount st \<le> stepCount (loop_body ob (after_next ob s)) \<and>
         outputText (loop_body ob (after_next ob s)) =
           outputText st @ concat (map (\<lambda>n. written_by (dbg n)) [stepCount st..<stepCount (loop_body ob (after_next ob s))]))"
    by simp
qed

lemma steps_increase_mono: "steps_increase n fs \<Longrightarrow> n \<le> m \<Longrightarrow> steps_increase m fs"
  by (fastforce simp: steps_increase_def)

lemma steps_increase_append:
  assumes "steps_increase n fs" and "step f = int n + 1"
  shows "steps_increase (n + 1) (fs @ [f])"
proof -
  have "\<forall>g\<in>set fs. step g < step f" using assms by (auto simp: steps_increase_def)
  moreover have "\<forall>i<length (fs @ [f]). int i + 1 \<le> step ((fs @ [f]) ! i)"
    using assms by (auto simp: steps_increase_def nth_append)
  ultimately show ?thesis
    using assms by (auto simp: steps_increase_def sorted_wrt_append)
qed

lemma step_loop_steps:
  assumes "step_loop dbg st = (thrown, st')"
    and "steps_increase (stepCount st) (capturedFrames st)"
  shows "steps_increase (stepCount st') (capturedFrames st')"
proof (rule step_loop_invariant [where I = "\<lambda>s. steps_increase (stepCount s) (capturedFrames s)",
        OF assms])
  fix s :: run_state and ob :: dbg_obs
  assume a: "steps_increase (stepCount s) (capturedFrames s)"
  have 1: "steps_increase (stepCount (after_next ob s)) (capturedFrames (after_next ob s))"
    using steps_increase_mono [OF a, of "stepCount s + 1"] by simp
  have 2: "steps_increase (stepCount s + 1)
             (capturedFrames s @ [line_frame (stepCount (after_next ob s)) l vs])" for l vs
    by (rule steps_increase_append [OF a]) (simp add: line_frame_def)
  have 3: "steps_increase (stepCount (loop_body ob (after_next ob s)))
             (capturedFrames (loop_body ob (after_next ob s)))"
    using capturedFrames_loop_body [of ob "after_next ob s"] 1 2 by auto
  show "steps_increase (stepCount (after_next ob s)) (capturedFrames (after_next ob s)) \<and>
        steps_increase (stepCount (loop_body ob (after_next ob s)))
          (capturedFrames (loop_body ob (after_next ob s)))"
    using 1 3 by simp
qed


lemma useCpp_runCode_Debugger:
  assumes "loadJSCPP = Inr run" and "run code = Debugger dbg"
    and "step_loop dbg initial_run_state = (thrown, st)"
  shows "fst (useCpp_runCode loadJSCPP hs code) =
    (case thrown of
       None \<Rightarrow>
         \<lparr>success = True, error = None,
          frames = (if outputText st \<noteq> []
                    then capturedFrames st @ [stdout_frame (stepCount st) (outputText st)]
                    else capturedFrames st)\<rparr>
     | Some err \<Rightarrow>
         \<lparr>success = False, error = Some (error_message err ''Unknown error running C code''),
          frames = capturedFrames st\<rparr>)"
  using assms by (simp add: useCpp_runCode_def cpp_catch_def Let_def split: option.splits)

lemma useCpp_runCode_no_debugger:
  assumes "\<And>run dbg. loadJSCPP = Inr run \<Longrightarrow> run code \<noteq> Debugger dbg"
  shows "frames (fst (useCpp_runCode loadJSCPP hs code)) = []"
proof (cases loadJSCPP)
  case (Inl err)
  then show ?thesis by (simp add: useCpp_runCode_def cpp_catch_def Let_def)
next
  case (Inr run)
  then show ?thesis
    using assms [OF Inr]
    by (cases "run code") (auto simp: useCpp_runCode_def cpp_catch_def Let_def)
qed

lemma steps_increase_initial: "steps_increase (stepCount initial_run_state) (capturedFrames initial_run_state)"
  by (simp add: steps_increase_def initial_run_state_def)

lemma useCpp_runCode_steps:
  "sorted_wrt (<) (map step (frames (fst (useCpp_runCode loadJSCPP hs code)))) \<and>
   (\<forall>i<length (frames (fst (useCpp_runCode loadJSCPP hs code))).
      int i + 1 \<le> step (frames (fst (useCpp_runCode loadJSCPP hs code)) ! i))"
proof (cases "\<exists>run dbg. loadJSCPP = Inr run \<and> run code = Debugger dbg")
  case False
  then have "frames (fst (useCpp_runCode loadJSCPP hs code)) = []"
    by (intro useCpp_runCode_no_debugger) auto
  then show ?thesis by simp
next
  case True
  then obtain run dbg where d: "loadJSCPP = Inr run" "run code = Debugger dbg" by auto
  obtain thrown st where sl: "step_loop dbg initial_run_state = (thrown, st)"
    by (cases "step_loop dbg initial_run_state")
  have si: "steps_increase (stepCount st) (capturedFrames st)"
    using step_loop_steps [OF sl steps_increase_initial] .
  have si1: "steps_increase (stepCount st + 1)
               (capturedFrames st @ [stdout_frame (stepCount st) (outputText st)])"
    by (rule steps_increase_append [OF si]) (simp add: stdout_frame_def)
  have "\<exists>n. steps_increase n (frames (fst (useCpp_runCode loadJSCPP hs code)))"
    using useCpp_runCode_Debugger [OF d sl, of hs] si si1
    by (cases thrown) (auto split: if_splits)
  then obtain n where "steps_increase n (frames (fst (useCpp_runCode loadJSCPP hs code)))" ..
  then show ?thesis
    by (simp add: steps_increase_def)
qed

lemma step_loop_dbg_hello:
  "step_loop dbg_hello initial_run_state =
     (None, \<lparr>capturedFrames = [line_frame 1 3 []], stepCount = 2, outputText = ''hi '',
             lastLine = - 1\<rparr>)"
  by (simp add: step_loop.simps initial_run_state_def dbg_hello_def after_next_def
      loop_body_def cpp_MAX_STEPS_def Let_def)

lemma trim_hi: "trim ''hi '' = ''hi''"
  by (simp add: trim_def is_js_space_def)

lemma useCpp_runCode_dbg_hello:
  "fst (useCpp_runCode (Inr (\<lambda>code. Debugger dbg_hello)) useCpp_init ''int main() {}'') =
     \<lparr>success = True, error = None,
      frames = [line_frame 1 3 [], stdout_frame 2 ''hi '']\<rparr>"
  using useCpp_runCode_Debugger [OF refl refl step_loop_dbg_hello, of useCpp_init "''int main() {}''"]
  by simp

lemma useCpp_runCode_not_started:
  "frames (fst (useCpp_runCode (Inl err) hs code)) = []"
  "run code = RunThrows err \<Longrightarrow> frames (fst (useCpp_runCode (Inr run) hs code)) = []"
  "run code = NotDebugger \<Longrightarrow> frames (fst (useCpp_runCode (Inr run) hs code)) = []"
  by (simp_all add: useCpp_runCode_def cpp_catch_def Let_def)

lemma capture_locals_x: "capture_locals [(''x'', PInt 10 1)] = Inr [(''x'', Snapshot (VInt 1) ''int'' 10 None None)]"
  by (simp add: capture_locals_def startswith_def IGNORED_VARS_def serialize_value_int)

lemma in_step_init: "in_step (CodeTracer_init filename)"
  by (simp add: in_step_def CodeTracer_init_def numbered_def)

lemma trace_code_numbered:
  assumes "trace_code p = Some (Inr r)"
  shows "numbered (frames r)"
proof (cases "compile_result p")
  case Compiled
  obtain raised tracer' where re:
    "run_events (CodeTracer_init ''<user_code>'') (events p) = (raised, tracer')"
    by (cases "run_events (CodeTracer_init ''<user_code>'') (events p)")
  have "numbered (CodeTracer.frames tracer')"
    using run_events_numbered [OF in_step_init re] by simp
  moreover have "frames r = CodeTracer.frames tracer'"
    using assms Compiled re
    by (auto simp: trace_code_def Let_def get_trace_def split: exec_result.splits if_splits)
  ultimately show ?thesis by simp
next
  case (SyntaxError msg lineno)
  then have "frames r = []" using assms by (auto simp: trace_code_def Let_def)
  then show ?thesis by (simp add: numbered_def)
next
  case (CompileRaises e)
  then show ?thesis using assms by (simp add: trace_code_def Let_def)
qed

lemma usePyodide_runCode_numbered:
  assumes "usePyodide_runCode st code = Some (r, st')"
  shows "numbered (frames r)"
proof (cases "pyodideRef st")
  case None
  then show ?thesis using assms by (auto simp: usePyodide_runCode_def numbered_def)
next
  case (Some runPython)
  show ?thesis
  proof (cases "runPython (pythonCall code)")
    case (Inl err)
    with Some show ?thesis using assms by (auto simp: usePyodide_runCode_def numbered_def)
  next
    case (Inr program)
    show ?thesis
    proof (cases "trace_code program")
      case None
      with Some Inr show ?thesis using assms by (simp add: usePyodide_runCode_def)
    next
      case tc: (Some res)
      show ?thesis
      proof (cases res)
        case (Inl e)
        with Some Inr tc show ?thesis
          using assms by (auto simp: usePyodide_runCode_def numbered_def)
      next
        case r: (Inr result)
        have "numbered (frames result)"
          using tc r by (intro trace_code_numbered [of program]) simp
        with Some Inr tc r show ?thesis
          using assms by (auto simp: usePyodide_runCode_def)
      qed
    qed
  qed
qed



lemma capture_locals_Nil: "capture_locals [] = Inr []"
  by (simp add: capture_locals_def)

lemma trace_code_prog_assign:
  "trace_code prog_assign =
     Some (Inr \<lparr>success = True, error = None,
          frames =
            [\<lparr>step = 1, line = 1, event = ''call'', func = ''<module>'', depth = 1,
              variables = [], return_value = Absent, exception = None\<rparr>,
             \<lparr>step = 2, line = 1, event = ''line'', func = ''<module>'', depth = 1,
              variables = [], return_value = Absent, exception = None\<rparr>,
             \<lparr>step = 3, line = 1, event = ''return'', func = ''<module>'', depth = 1,
              variables = [(''x'', Snapshot (VInt 1) ''int'' 10 None None)],
              return_value = Null, exception = None\<rparr>]\<rparr>)"
  by (simp add: trace_code_def prog_assign_def user_frame_def CodeTracer_init_def
      trace_function_def MAX_STEPS_def capture_locals_Nil capture_locals_x
      get_trace_def unhandled_def Let_def)

lemma run_events_at_limit:
  "MAX_STEPS \<le> step_count self \<Longrightarrow> run_events self evs = (None, self)"
proof (induction evs)
  case Nil
  show ?case by simp
next
  case (Cons fe evs)
  obtain frame ev where fe: "fe = (frame, ev)" by (cases fe)
  have "trace_function self frame ev = (Inr False, self)"
    using Cons.prems by (simp add: trace_function_def)
  then show ?case using Cons fe by simp
qed




lemma capture_loop_Cons:
  "capture_loop ((name, v) # rest) captured =
     (if kept name v
      then (case serialize_value v 0 of
              Inl e \<Rightarrow> Inl e
            | Inr s \<Rightarrow> capture_loop rest (AList.update name s captured))
      else capture_loop rest captured)"
  by (auto simp: kept_def)

lemma capture_loop_total:
  assumes "distinct (map fst local_vars)"
    and "\<forall>(name, v)\<in>set local_vars. kept name v \<longrightarrow> (\<exists>s. serialize_value v 0 = Inr s)"
  shows "\<exists>captured'. capture_loop local_vars captured = Inr captured' \<and>
           (\<forall>(name, v)\<in>set local_vars. kept name v \<longrightarrow>
              (\<exists>s. serialize_value v 0 = Inr s \<and> map_of captured' name = Some s)) \<and>
           (\<forall>k. k \<notin> fst ` set local_vars \<longrightarrow> map_of captured' k = map_of captured k)"
  using assms
proof (induction local_vars arbitrary: captured)
  case Nil
  show ?case by simp
next
  case (Cons nv rest)
  obtain name v where nv: "nv = (name, v)" by (cases nv)
  have d: "distinct (map fst rest)" and nin: "name \<notin> fst ` set rest"
    using Cons.prems(1) nv by auto
  have ser: "\<forall>(name, v)\<in>set rest. kept name v \<longrightarrow> (\<exists>s. serialize_value v 0 = Inr s)"
    using Cons.prems(2) by auto
  show ?case
  proof (cases "kept name v")
    case False
    obtain c' where c': "capture_loop rest captured = Inr c'"
      "\<forall>(name, v)\<in>set rest. kept name v \<longrightarrow>
          (\<exists>s. serialize_value v 0 = Inr s \<and> map_of c' name = Some s)"
      "\<forall>k. k \<notin> fst ` set rest \<longrightarrow> map_of c' k = map_of captured k"
      using Cons.IH [OF d ser, of captured] by blast
    have "capture_loop (nv # rest) captured = Inr c'"
      using False c'(1) nv by (simp only: capture_loop_Cons if_False)
    then show ?thesis using c'(2,3) False nv by auto
  next
    case True
    then obtain s where s: "serialize_value v 0 = Inr s"
      using Cons.prems(2) nv by auto
    obtain c' where c': "capture_loop rest (AList.update name s captured) = Inr c'"
      "\<forall>(name, v)\<in>set rest. kept name v \<longrightarrow>
          (\<exists>s. serialize_value v 0 = Inr s \<and> map_of c' name = Some s)"
      "\<forall>k. k \<notin> fst ` set rest \<longrightarrow> map_of c' k = map_of (AList.update name s captured) k"
      using Cons.IH [OF d ser, of "AList.update name s captured"] by blast
    have eq: "capture_loop (nv # rest) captured = Inr c'"
      using True c'(1) s nv by (simp only: capture_loop_Cons if_True sum.case)
    have here: "map_of c' name = Some s"
      using c'(3) nin by (simp add: update_conv')
    have other: "\<forall>k. k \<notin> fst ` set (nv # rest) \<longrightarrow> map_of c' k = map_of captured k"
      using c'(3) nv by (auto simp: update_conv')
    show ?thesis using eq c'(2) here other s nv by auto
  qed
qed

lemma serialize_value_unserializable:
  "d \<le> 3 \<Longrightarrow>
   serialize_value (PObject i tn None cl) d =
     Inr (Snapshot (VStr ''<unserializable>'') tn i None None)"
  by (subst serialize_value.simps) simp

lemma capture_locals_bad_object:
  "capture_locals [(''x'', PInt 10 1), (''o'', PObject 12 ''Bad'' None False)] =
     Inr [(''x'', Snapshot (VInt 1) ''int'' 10 None None),
          (''o'', Snapshot (VStr ''<unserializable>'') ''Bad'' 12 None None)]"
  by (simp add: capture_locals_def startswith_def IGNORED_VARS_def serialize_value_int
      serialize_value_unserializable)

lemma serialize_entries_key_raises:
  assumes "j < length kvs" and "count + j < 20" and "fst (kvs ! j) = OtherKey (Inl e)"
    and "\<forall>m<j. \<exists>ks s. key_str (fst (kvs ! m)) = Inr ks \<and> f (snd (kvs ! m)) = Inr s"
  shows "serialize_entries f kvs count serialized_dict = Inl e"
  using assms
proof (induction kvs arbitrary: j count serialized_dict)
  case Nil
  then show ?case by simp
next
  case (Cons kv kvs)
  obtain k v where kv: "kv = (k, v)" by (cases kv)
  show ?case
  proof (cases j)
    case 0
    then show ?thesis using Cons.prems kv by simp
  next
    case (Suc j')
    obtain ks s where ks: "key_str k = Inr ks" "f v = Inr s"
      using Cons.prems(4) Suc kv by fastforce
    have 1: "j' < length kvs" using Cons.prems(1) Suc by simp
    have 2: "(count + 1) + j' < 20" using Cons.prems(2) Suc by simp
    have 3: "fst (kvs ! j') = OtherKey (Inl e)" using Cons.prems(3) Suc by simp
    have 4: "\<forall>m<j'. \<exists>ks s. key_str (fst (kvs ! m)) = Inr ks \<and> f (snd (kvs ! m)) = Inr s"
      using Cons.prems(4) Suc by fastforce
    have "serialize_entries f (kv # kvs) count serialized_dict =
            serialize_entries f kvs (count + 1) (AList.update ks s serialized_dict)"
      using ks kv Cons.prems(2) by simp
    then show ?thesis using Cons.IH [OF 1 2 3 4] by simp
  qed
qed

lemma serialize_value_key_raises:
  assumes "d \<le> 3" and "j < length kvs" and "j < 20" and "fst (kvs ! j) = OtherKey (Inl e)"
    and "\<forall>m<j. \<exists>ks s. key_str (fst (kvs ! m)) = Inr ks \<and>
                        serialize_value (snd (kvs ! m)) (d + 1) = Inr s"
  shows "serialize_value (PDict i kvs) d = Inl e"
proof -
  have "serialize_entries (\<lambda>v. serialize_value v (d + 1)) kvs 0 [] = Inl e"
    using assms(2-5) by (intro serialize_entries_key_raises [where j = j]) simp_all
  then show ?thesis using assms(1) by (subst serialize_value.simps) simp
qed

subsection \<open>Source that does not compile\<close>

text \<open>
  When \<^verbatim>\<open>compile\<close> raises a \<^verbatim>\<open>SyntaxError\<close>, \<^verbatim>\<open>trace_code\<close> returns \<^verbatim>\<open>success = False\<close>, no
  frames, and the error text \<^verbatim>\<open>SyntaxError: <msg> at line <lineno>\<close>: it is not empty, it
  contains the message of the exception, and it contains the line number when the
  exception has one. When Python reads from the call text the source that the hook was
  given, \<^verbatim>\<open>usePyodide.runCode\<close> hands this result to its caller.
\<close>

lemma trace_code_SyntaxError:
  assumes "compile_result p = SyntaxError msg lineno"
  shows "trace_code p =
           Some (Inr \<lparr>success = False,
                      error = Some (''SyntaxError: '' @ msg @ '' at line '' @
                                (case lineno of None \<Rightarrow> ''None'' | Some n \<Rightarrow> str_int n)),
                      frames = []\<rparr>)"
    and "''SyntaxError: '' @ msg @ '' at line '' @
           (case lineno of None \<Rightarrow> ''None'' | Some n \<Rightarrow> str_int n) \<noteq> []"
    and "sublist msg (''SyntaxError: '' @ msg @ '' at line '' @
           (case lineno of None \<Rightarrow> ''None'' | Some n \<Rightarrow> str_int n))"
    and "lineno = Some n \<Longrightarrow>
         sublist (str_int n) (''SyntaxError: '' @ msg @ '' at line '' @
           (case lineno of None \<Rightarrow> ''None'' | Some n \<Rightarrow> str_int n))"
proof -
  show "trace_code p =
           Some (Inr \<lparr>success = False,
                      error = Some (''SyntaxError: '' @ msg @ '' at line '' @
                                (case lineno of None \<Rightarrow> ''None'' | Some n \<Rightarrow> str_int n)),
                      frames = []\<rparr>)"
    using assms by (simp add: trace_code_def)
  show "''SyntaxError: '' @ msg @ '' at line '' @
           (case lineno of None \<Rightarrow> ''None'' | Some n \<Rightarrow> str_int n) \<noteq> []"
    by simp
  show "sublist msg (''SyntaxError: '' @ msg @ '' at line '' @
           (case lineno of None \<Rightarrow> ''None'' | Some n \<Rightarrow> str_int n))"
    by (rule sublist_appendI)
  show "sublist (str_int n) (''SyntaxError: '' @ msg @ '' at line '' @
           (case lineno of None \<Rightarrow> ''None'' | Some n \<Rightarrow> str_int n))"
    if "lineno = Some n"
  proof -
    have "''SyntaxError: '' @ msg @ '' at line '' @
            (case lineno of None \<Rightarrow> ''None'' | Some n \<Rightarrow> str_int n) =
          (''SyntaxError: '' @ msg @ '' at line '') @ str_int n @ []"
      using that by simp
    then show ?thesis by (metis sublist_appendI)
  qed
qed

lemma usePyodide_runCode_SyntaxError:
  assumes "pyodideRef st = Some (pyodide_runPython fault interp)"
    and "read_call (pythonCall code) = Some code"
    and "compile_result (interp code) = SyntaxError msg lineno"
  shows "usePyodide_runCode st code =
           Some (\<lparr>success = False,
                  error = Some (''SyntaxError: '' @ msg @ '' at line '' @
                            (case lineno of None \<Rightarrow> ''None'' | Some n \<Rightarrow> str_int n)),
                  frames = []\<rparr>,
                 st\<lparr>hook_frames := Some []\<rparr>)"
  using assms trace_code_SyntaxError(1) [OF assms(3)]
  by (simp add: usePyodide_runCode_def pyodide_runPython_def)

text \<open>
  A source text without a backslash, a double quote and a line feed is written into the
  call text as it is and read back as it is, so a run on such a text that does not
  compile returns the result above.
\<close>

lemma replace_all_absent:
  "pat \<noteq> [] \<Longrightarrow> hd pat \<notin> set s \<Longrightarrow> replace_all pat rep s = s"
proof (induction s)
  case Nil
  show ?case by simp
next
  case (Cons c cs)
  have "take (length pat) (c # cs) \<noteq> pat"
  proof
    assume "take (length pat) (c # cs) = pat"
    then have "hd pat = c" using Cons.prems(1) by (cases pat) auto
    then show False using Cons.prems(2) by simp
  qed
  then show ?case using Cons by simp
qed

lemma escapedCode_plain:
  assumes "backslash \<notin> set code" and "dquote \<notin> set code" and "newline \<notin> set code"
  shows "escapedCode code = code"
  using assms by (simp add: escapedCode_def replace_all_absent)

lemma read_body_plain:
  "backslash \<notin> set code \<Longrightarrow> dquote \<notin> set code \<Longrightarrow>
   read_body acc (code @ [dquote, dquote, dquote] @ rest) = Some (acc @ code, rest)"
proof (induction code arbitrary: acc)
  case Nil
  have "dquote \<noteq> backslash" by (simp add: dquote_def backslash_def)
  then show ?case by simp
next
  case (Cons c cs)
  obtain e r where er: "cs @ [dquote, dquote, dquote] @ rest = e # r"
    by (cases "cs @ [dquote, dquote, dquote] @ rest") auto
  have c: "c \<noteq> backslash" "c \<noteq> dquote" using Cons.prems by auto
  have "read_body acc ((c # cs) @ [dquote, dquote, dquote] @ rest) =
          read_body acc (c # e # r)"
    using er by simp
  also have "\<dots> = read_body (acc @ [c]) (e # r)"
    using c by simp
  also have "\<dots> = read_body (acc @ [c]) (cs @ [dquote, dquote, dquote] @ rest)"
    using er by simp
  also have "\<dots> = Some ((acc @ [c]) @ cs, rest)"
    using Cons.prems by (intro Cons.IH) auto
  finally show ?case by simp
qed

lemma read_call_plain:
  assumes "backslash \<notin> set code" and "dquote \<notin> set code" and "newline \<notin> set code"
  shows "read_call (pythonCall code) = Some code"
proof -
  have "pythonCall code = (''trace_code('' @ [dquote, dquote, dquote]) @
          (code @ [dquote, dquote, dquote] @ '')'')"
    using escapedCode_plain [OF assms] by (simp add: pythonCall_def)
  moreover have "read_body [] (code @ [dquote, dquote, dquote] @ '')'') = Some ([] @ code, '')'')"
    using assms(1,2) by (rule read_body_plain)
  ultimately show ?thesis by (simp add: read_call_def)
qed

lemma str_int_1: "str_int 1 = ''1''"
  by (simp add: str_int_def str_nat.simps)

lemma usePyodide_runCode_example:
  "usePyodide_runCode pyodide_example ''x = '' =
     Some (\<lparr>success = False, error = Some ''SyntaxError: invalid syntax at line 1'',
            frames = []\<rparr>,
           pyodide_example\<lparr>hook_frames := Some []\<rparr>)"
  using usePyodide_runCode_SyntaxError [where st = pyodide_example and code = "''x = ''"
      and interp = python_example and fault = "JsError ''SyntaxError''"
      and msg = "''invalid syntax''" and lineno = "Some 1"]
    read_call_plain [of "''x = ''"]
  by (simp add: pyodide_example_def python_example_def str_int_1 backslash_def dquote_def
      newline_def)

lemma usePyodide_runCode_plain_SyntaxError:
  assumes "backslash \<notin> set code" and "dquote \<notin> set code" and "newline \<notin> set code"
    and "pyodideRef st = Some (pyodide_runPython fault interp)"
    and "compile_result (interp code) = SyntaxError msg lineno"
  shows "usePyodide_runCode st code =
           Some (\<lparr>success = False,
                  error = Some (''SyntaxError: '' @ msg @ '' at line '' @
                            (case lineno of None \<Rightarrow> ''None'' | Some n \<Rightarrow> str_int n)),
                  frames = []\<rparr>,
                 st\<lparr>hook_frames := Some []\<rparr>)"
  using assms(4) read_call_plain [OF assms(1-3)] assms(5)
  by (rule usePyodide_runCode_SyntaxError)

text \<open>
  An exception of \<^verbatim>\<open>compile\<close> other than a \<^verbatim>\<open>SyntaxError\<close> escapes \<^verbatim>\<open>trace_code\<close>; the hook
  catches it and returns its message with no frames.
\<close>

lemma usePyodide_runCode_compile_raises:
  assumes "compile_result p = CompileRaises e"
    and "pyodideRef st = Some run" and "run (pythonCall code) = Inr p"
  shows "trace_code p = Some (Inl e)"
    and "usePyodide_runCode st code =
           Some (\<lparr>success = False, error = Some (js_message e), frames = []\<rparr>, st)"
proof -
  show tc: "trace_code p = Some (Inl e)"
    using assms(1) by (simp add: trace_code_def)
  show "usePyodide_runCode st code =
           Some (\<lparr>success = False, error = Some (js_message e), frames = []\<rparr>, st)"
    using assms(2,3) tc by (simp add: usePyodide_runCode_def)
qed

lemma pythonCall_trailing_quotes:
  "pythonCall (''x = 1 '' @ [dquote, dquote]) =
     ''trace_code('' @ [dquote, dquote, dquote] @ ''x = 1 '' @
     [dquote, dquote, dquote, dquote, dquote] @ '')''"
  by (simp add: pythonCall_def escapedCode_def dquote_def backslash_def newline_def)

lemma read_call_trailing_quotes:
  "read_call (pythonCall (''x = 1 '' @ [dquote, dquote])) = Some ''x = 1 ''"
  unfolding pythonCall_trailing_quotes
  by (simp add: read_call_def dquote_def backslash_def)

text \<open>
  C3. The hook's escaping leaves two double quotes at the end of the source as they
  are. For the text \<^verbatim>\<open>x = 1\<close>, a blank and two double quotes, which does not compile, the
  call text ends in five quotes: Python ends the literal at the first three and reads
  the other two as an empty literal, so \<^verbatim>\<open>trace_code\<close> is given \<^verbatim>\<open>x = 1\<close> and a blank, and
  the run returns \<^verbatim>\<open>success = true\<close> with the three frames of that program.
\<close>

theorem usePyodide_runCode_trailing_quotes:
  "compile_result (python_example (''x = 1 '' @ [dquote, dquote])) =
     SyntaxError ''invalid syntax'' (Some 1)
   \<and> pythonCall (''x = 1 '' @ [dquote, dquote]) =
       ''trace_code('' @ [dquote, dquote, dquote] @ ''x = 1 '' @
       [dquote, dquote, dquote, dquote, dquote] @ '')''
   \<and> read_call (pythonCall (''x = 1 '' @ [dquote, dquote])) = Some ''x = 1 ''
   \<and> map_option (summary \<circ> fst) (usePyodide_runCode pyodide_example (''x = 1 '' @ [dquote, dquote]))
       = Some (True, None, 3)"
proof -
  have 1: "compile_result (python_example (''x = 1 '' @ [dquote, dquote])) =
     SyntaxError ''invalid syntax'' (Some 1)"
    by (simp add: python_example_def dquote_def)
  have 3: "map_option (summary \<circ> fst)
             (usePyodide_runCode pyodide_example (''x = 1 '' @ [dquote, dquote]))
           = Some (True, None, 3)"
    using read_call_trailing_quotes
    by (simp add: usePyodide_runCode_def pyodide_example_def pyodide_runPython_def
        python_example_def trace_code_prog_assign summary_def)
  show ?thesis
    using 1 pythonCall_trailing_quotes read_call_trailing_quotes 3 by (intro conjI)
qed

subsection \<open>Truncation of sequences and texts\<close>

text \<open>
  The \<^verbatim>\<open>list\<close> branch: a list longer than the cap is cut to its first \<open>MAX_LIST_LENGTH\<close>
  items, reports its true length and sets \<^verbatim>\<open>truncated\<close>.
\<close>

lemma serialize_value_long_list:
  assumes "length xs > MAX_LIST_LENGTH" and "d \<le> 3"
    and "serialize_items (\<lambda>item. serialize_value item (d + 1)) (take MAX_LIST_LENGTH xs) []
           = Inr serialized_items"
  shows "serialize_value (PList i xs) d =
           Inr (Snapshot (VList serialized_items) ''list'' i (Some (int (length xs))) (Some True))"
    and "length serialized_items = MAX_LIST_LENGTH"
proof -
  show "serialize_value (PList i xs) d =
           Inr (Snapshot (VList serialized_items) ''list'' i (Some (int (length xs))) (Some True))"
    using assms by (subst serialize_value.simps) simp
  show "length serialized_items = MAX_LIST_LENGTH"
    using serialize_items_length [OF assms(3)] assms(1) by simp
qed

text \<open>
  The \<^verbatim>\<open>tuple\<close> branch, for every tuple: the snapshot never has a \<^verbatim>\<open>truncated\<close> field.
\<close>

lemma serialize_value_tuple_no_flag:
  assumes "serialize_value (PTuple i xs) d = Inr snap" and "d \<le> 3"
  shows "sv_truncated snap = None" and "sv_length snap = Some (int (length xs))"
proof -
  have *: "(case serialize_items (\<lambda>item. serialize_value item (d + 1))
                   (take MAX_LIST_LENGTH xs) [] of
              Inl e \<Rightarrow> Inl e
            | Inr serialized_items \<Rightarrow>
                Inr (Snapshot (VList serialized_items) ''tuple'' i (Some (int (length xs)))
                      None)) = Inr snap"
    using assms by (subst (asm) serialize_value.simps) simp
  show "sv_truncated snap = None"
    using * by (auto split: sum.splits)
  show "sv_length snap = Some (int (length xs))"
    using * by (auto split: sum.splits)
qed

text \<open>
  C4. The \<^verbatim>\<open>tuple\<close> branch cuts the items as the \<^verbatim>\<open>list\<close> branch does and reports the true
  length, but it does not set \<^verbatim>\<open>truncated\<close>: for a tuple of 51 integers the snapshot holds
  50 items, \<^verbatim>\<open>length\<close> 51 and no \<^verbatim>\<open>truncated\<close> field.
\<close>

theorem serialize_value_tuple_51:
  "serialize_value (PTuple 7 (replicate 51 (PInt 1 0))) 0 =
     Inr (Snapshot (VList (replicate 50 (Snapshot (VInt 0) ''int'' 1 None None))) ''tuple'' 7
           (Some 51) None)"
proof -
  have "serialize_items (\<lambda>item. serialize_value item (0 + 1))
          (take MAX_LIST_LENGTH (replicate 51 (PInt 1 0))) []
        = Inr ([] @ map (\<lambda>_. Snapshot (VInt 0) ''int'' 1 None None)
                     (take MAX_LIST_LENGTH (replicate 51 (PInt 1 0))))"
    by (rule serialize_items_map) (auto simp: serialize_value_int dest: in_set_takeD)
  then show ?thesis
    by (subst serialize_value.simps) (simp add: MAX_LIST_LENGTH_def map_replicate_const)
qed

text \<open>
  C5, as the code has it. A text longer than the cap of 100 is serialized as its first
  100 characters followed by the marker \<^verbatim>\<open>...\<close>; the snapshot of a text has no \<^verbatim>\<open>length\<close>
  field and no \<^verbatim>\<open>truncated\<close> field, so the original length is not reported.
\<close>

theorem serialize_value_long_text:
  assumes "length s > MAX_STRING_LENGTH" and "d \<le> 3"
  shows "MAX_STRING_LENGTH = 100 \<and>
         serialize_value (PStr i s) d =
           Inr (Snapshot (VStr (take MAX_STRING_LENGTH s @ ''...'')) ''str'' i None None)"
proof -
  have "serialize_value (PStr i s) d =
           Inr (Snapshot (VStr (take MAX_STRING_LENGTH s @ ''...'')) ''str'' i None None)"
    using assms by (subst serialize_value.simps) simp
  then show ?thesis by (simp add: MAX_STRING_LENGTH_def)
qed

theorem serialize_value_long_text_witness:
  "length (replicate 101 CHR ''a'') > MAX_STRING_LENGTH \<and> (0::int) \<le> 3 \<and>
   serialize_value (PStr 1 (replicate 101 CHR ''a'')) 0 =
     Inr (Snapshot (VStr (replicate 100 CHR ''a'' @ ''...'')) ''str'' 1 None None)"
proof -
  have h: "length (replicate 101 CHR ''a'') > MAX_STRING_LENGTH"
    by (simp add: MAX_STRING_LENGTH_def)
  have "serialize_value (PStr 1 (replicate 101 CHR ''a'')) 0 =
     Inr (Snapshot (VStr (take MAX_STRING_LENGTH (replicate 101 CHR ''a'') @ ''...'')) ''str'' 1
           None None)"
    using serialize_value_long_text [OF h, of 0 1] by simp
  then show ?thesis
    using h by (simp add: MAX_STRING_LENGTH_def)
qed

text \<open>
  C5, as the claim states it, fails for a text of 101 characters: the snapshot has no
  \<^verbatim>\<open>length\<close> field (the claim asks for 101), and its value is 103 characters long.
\<close>

theorem serialize_value_text_101:
  "serialize_value (PStr 1 (replicate 101 CHR ''a'')) 0 =
     Inr (Snapshot (VStr (replicate 100 CHR ''a'' @ ''...'')) ''str'' 1 None None)
   \<and> sv_length (Snapshot (VStr (replicate 100 CHR ''a'' @ ''...'')) ''str'' 1 None None)
       \<noteq> Some 101
   \<and> length (replicate 100 CHR ''a'' @ ''...'') = 103"
  by (subst serialize_value.simps) (simp add: MAX_STRING_LENGTH_def)

subsection \<open>The binding filter\<close>

text \<open>
  C6. A binding whose name starts with two underscores and is not on the list
  \<open>IGNORED_VARS\<close> is kept: the \<^verbatim>\<open>continue\<close> that the comment \<^verbatim>\<open>but not dunder\<close> announces
  cannot be reached.
\<close>

theorem capture_locals_dunder:
  "capture_locals [(''__x'', PInt 1 5)] = Inr [(''__x'', Snapshot (VInt 5) ''int'' 1 None None)]"
  by (simp add: capture_locals_def startswith_def IGNORED_VARS_def serialize_value_int)

subsection \<open>A run before the engine is ready\<close>



subsection \<open>Return events\<close>

lemma trace_function_LineEvent:
  assumes "step_count self < MAX_STEPS" and "target_filename self = ''<user_code>''"
  shows "trace_function self (user_frame l []) LineEvent =
           (Inr True,
            self\<lparr>step_count := step_count self + 1,
                 CodeTracer.frames := CodeTracer.frames self @
                   [\<lparr>step = step_count self + 1, line = l, event = ''line'',
                     func = ''<module>'', depth = call_depth self, variables = [],
                     return_value = Absent, exception = None\<rparr>]\<rparr>)"
  using assms by (simp add: trace_function_def user_frame_def capture_locals_Nil Let_def)

lemma run_events_replicate_lines:
  "target_filename self = ''<user_code>'' \<Longrightarrow> step_count self + int n \<le> MAX_STEPS \<Longrightarrow>
   \<exists>self'. run_events self (replicate n (user_frame l [], LineEvent) @ rest) =
             run_events self' rest \<and>
           tracer_summary self' =
             (length (CodeTracer.frames self) + n, step_count self + int n, call_depth self) \<and>
           target_filename self' = ''<user_code>''"
proof (induction n arbitrary: self)
  case 0
  then show ?case by (auto simp: tracer_summary_def)
next
  case (Suc n)
  define self1 where "self1 =
    self\<lparr>step_count := step_count self + 1,
         CodeTracer.frames := CodeTracer.frames self @
           [\<lparr>step = step_count self + 1, line = l, event = ''line'',
             func = ''<module>'', depth = call_depth self, variables = [],
             return_value = Absent, exception = None\<rparr>]\<rparr>"
  have lt: "step_count self < MAX_STEPS" using Suc.prems(2) by simp
  have tf: "trace_function self (user_frame l []) LineEvent = (Inr True, self1)"
    unfolding self1_def by (rule trace_function_LineEvent [OF lt Suc.prems(1)])
  have t1: "target_filename self1 = ''<user_code>''"
    using Suc.prems(1) by (simp add: self1_def)
  have s1: "step_count self1 + int n \<le> MAX_STEPS"
    using Suc.prems(2) by (simp add: self1_def)
  obtain self' where r: "run_events self1 (replicate n (user_frame l [], LineEvent) @ rest) =
             run_events self' rest"
    and s: "tracer_summary self' =
             (length (CodeTracer.frames self1) + n, step_count self1 + int n, call_depth self1)"
    and t: "target_filename self' = ''<user_code>''"
    using Suc.IH [OF t1 s1] by blast
  have "run_events self (replicate (Suc n) (user_frame l [], LineEvent) @ rest) =
          run_events self' rest"
    using tf r by simp
  moreover have "tracer_summary self' =
      (length (CodeTracer.frames self) + Suc n, step_count self + int (Suc n), call_depth self)"
    using s by (simp add: self1_def)
  ultimately show ?case using t by blast
qed

lemma run_events_to_limit:
  "\<exists>self'. run_events (CodeTracer_init ''<user_code>'')
             ((user_frame 1 [], CallEvent) # replicate 999 (user_frame 2 [], LineEvent) @ rest) =
           (None, self') \<and> tracer_summary self' = (1000, 1000, 1)"
proof -
  define self1 where "self1 =
    \<lparr>CodeTracer.frames =
       [\<lparr>step = 1, line = 1, event = ''call'', func = ''<module>'', depth = 1,
         variables = [], return_value = Absent, exception = None\<rparr>],
     step_count = 1, target_filename = ''<user_code>'', call_depth = 1\<rparr>"
  have tf: "trace_function (CodeTracer_init ''<user_code>'') (user_frame 1 []) CallEvent =
              (Inr True, self1)"
    by (simp add: trace_function_def CodeTracer_init_def user_frame_def capture_locals_Nil
        MAX_STEPS_def Let_def self1_def)
  have t1: "target_filename self1 = ''<user_code>''" by (simp add: self1_def)
  have s1: "step_count self1 + int 999 \<le> MAX_STEPS" by (simp add: self1_def MAX_STEPS_def)
  obtain self' where r: "run_events self1 (replicate 999 (user_frame 2 [], LineEvent) @ rest) =
             run_events self' rest"
    and s: "tracer_summary self' =
             (length (CodeTracer.frames self1) + 999, step_count self1 + int 999,
              call_depth self1)"
    using run_events_replicate_lines [OF t1 s1] by blast
  have s': "tracer_summary self' = (1000, 1000, 1)"
    using s by (simp add: self1_def)
  then have "MAX_STEPS \<le> step_count self'"
    by (simp add: tracer_summary_def MAX_STEPS_def)
  then have "run_events self' rest = (None, self')"
    by (rule run_events_at_limit)
  then have "run_events (CodeTracer_init ''<user_code>'')
             ((user_frame 1 [], CallEvent) # replicate 999 (user_frame 2 [], LineEvent) @ rest) =
           (None, self')"
    using tf r by simp
  then show ?thesis using s' by blast
qed

lemma serialize_value_dict_boom:
  "serialize_value (PDict 5 [(OtherKey (Inl boom), PInt 6 1)]) 0 = Inl boom"
  by (subst serialize_value.simps) simp

lemma serialize_value_None:
  "serialize_value (PNone i) 0 = Inr (Snapshot VNone ''NoneType'' i None None)"
  by (subst serialize_value.simps) simp

text \<open>
  C7, as the code has it. A \<^verbatim>\<open>return\<close> event of the traced file that arrives below the
  step limit and whose bindings and return value serialize appends one frame and then
  lowers the call depth: the frame carries the next step number, the depth before the
  return and the serialized return value, or \<^verbatim>\<open>null\<close> when the function returned \<^verbatim>\<open>None\<close>
  (\<^verbatim>\<open>serialize_value(arg) if arg is not None else None\<close>: the return value is then not
  serialized), and the depth after it is \<open>max 0 (depth - 1)\<close>. Every other \<^verbatim>\<open>return\<close> event
  (at the limit, of another file, or with a binding or a return value whose
  serialization raises) appends no frame and leaves the call depth as it is.
\<close>

theorem trace_function_return:
  "(step_count self < MAX_STEPS \<and> co_filename frame = target_filename self \<and>
    capture_locals (f_locals frame) = Inr vs \<and>
    (is_None arg \<or> serialize_value arg 0 = Inr s) \<longrightarrow>
      trace_function self frame (ReturnEvent arg) =
        (Inr True,
         self\<lparr>step_count := step_count self + 1,
              CodeTracer.frames := CodeTracer.frames self @
                [\<lparr>step = step_count self + 1, line = f_lineno frame, event = ''return'',
                  func = co_name frame, depth = call_depth self, variables = vs,
                  return_value = (if is_None arg then Null else Present s),
                  exception = None\<rparr>],
              call_depth := max 0 (call_depth self - 1)\<rparr>))
   \<and> (\<not> (step_count self < MAX_STEPS \<and> co_filename frame = target_filename self \<and>
          \<not> isl (capture_locals (f_locals frame)) \<and>
          (is_None arg \<or> \<not> isl (serialize_value arg 0))) \<longrightarrow>
        CodeTracer.frames (snd (trace_function self frame (ReturnEvent arg))) =
          CodeTracer.frames self \<and>
        call_depth (snd (trace_function self frame (ReturnEvent arg))) = call_depth self)"
proof (intro conjI impI)
  assume a: "step_count self < MAX_STEPS \<and> co_filename frame = target_filename self \<and>
    capture_locals (f_locals frame) = Inr vs \<and>
    (is_None arg \<or> serialize_value arg 0 = Inr s)"
  show "trace_function self frame (ReturnEvent arg) =
        (Inr True,
         self\<lparr>step_count := step_count self + 1,
              CodeTracer.frames := CodeTracer.frames self @
                [\<lparr>step = step_count self + 1, line = f_lineno frame, event = ''return'',
                  func = co_name frame, depth = call_depth self, variables = vs,
                  return_value = (if is_None arg then Null else Present s),
                  exception = None\<rparr>],
              call_depth := max 0 (call_depth self - 1)\<rparr>)"
  proof (cases "is_None arg")
    case True
    with a show ?thesis by (simp add: trace_function_def Let_def)
  next
    case False
    with a show ?thesis by (simp add: trace_function_def Let_def)
  qed
next
  assume n: "\<not> (step_count self < MAX_STEPS \<and> co_filename frame = target_filename self \<and>
          \<not> isl (capture_locals (f_locals frame)) \<and>
          (is_None arg \<or> \<not> isl (serialize_value arg 0)))"
  show "CodeTracer.frames (snd (trace_function self frame (ReturnEvent arg))) =
          CodeTracer.frames self"
    using n
    by (cases "capture_locals (f_locals frame)"; cases "serialize_value arg 0")
       (simp_all add: trace_function_def Let_def)
next
  assume n: "\<not> (step_count self < MAX_STEPS \<and> co_filename frame = target_filename self \<and>
          \<not> isl (capture_locals (f_locals frame)) \<and>
          (is_None arg \<or> \<not> isl (serialize_value arg 0)))"
  show "call_depth (snd (trace_function self frame (ReturnEvent arg))) = call_depth self"
    using n
    by (cases "capture_locals (f_locals frame)"; cases "serialize_value arg 0")
       (simp_all add: trace_function_def Let_def)
qed

theorem trace_function_return_witness:
  "trace_function
     \<lparr>CodeTracer.frames = [], step_count = 0, target_filename = ''<user_code>'', call_depth = 1\<rparr>
     \<lparr>co_filename = ''<user_code>'', co_name = ''f'', f_lineno = 2,
      f_locals = [(''x'', PInt 10 1)]\<rparr>
     (ReturnEvent (PInt 11 2)) =
   (Inr True,
    \<lparr>CodeTracer.frames =
       [\<lparr>step = 1, line = 2, event = ''return'', func = ''f'', depth = 1,
         variables = [(''x'', Snapshot (VInt 1) ''int'' 10 None None)],
         return_value = Present (Snapshot (VInt 2) ''int'' 11 None None), exception = None\<rparr>],
     step_count = 1, target_filename = ''<user_code>'', call_depth = 0\<rparr>)
   \<and> trace_function
     \<lparr>CodeTracer.frames = [], step_count = 0, target_filename = ''<user_code>'', call_depth = 0\<rparr>
     \<lparr>co_filename = ''<user_code>'', co_name = ''g'', f_lineno = 5,
      f_locals = [(''x'', PInt 10 1)]\<rparr>
     (ReturnEvent (PNone 0)) =
   (Inr True,
    \<lparr>CodeTracer.frames =
       [\<lparr>step = 1, line = 5, event = ''return'', func = ''g'', depth = 0,
         variables = [(''x'', Snapshot (VInt 1) ''int'' 10 None None)],
         return_value = Null, exception = None\<rparr>],
     step_count = 1, target_filename = ''<user_code>'', call_depth = 0\<rparr>)
   \<and> CodeTracer.frames (snd (trace_function
       \<lparr>CodeTracer.frames = [], step_count = 0, target_filename = ''<user_code>'',
        call_depth = 1\<rparr>
       \<lparr>co_filename = ''<user_code>'', co_name = ''f'', f_lineno = 2, f_locals = []\<rparr>
       (ReturnEvent (PDict 5 [(OtherKey (Inl boom), PInt 6 1)])))) = []
   \<and> call_depth (snd (trace_function
       \<lparr>CodeTracer.frames = [], step_count = 0, target_filename = ''<user_code>'',
        call_depth = 1\<rparr>
       \<lparr>co_filename = ''<user_code>'', co_name = ''f'', f_lineno = 2, f_locals = []\<rparr>
       (ReturnEvent (PDict 5 [(OtherKey (Inl boom), PInt 6 1)])))) = 1"
  using trace_function_return [where self =
       "\<lparr>CodeTracer.frames = [], step_count = 0, target_filename = ''<user_code>'',
         call_depth = 1\<rparr>"
     and frame = "\<lparr>co_filename = ''<user_code>'', co_name = ''f'', f_lineno = 2,
         f_locals = [(''x'', PInt 10 1)]\<rparr>"
     and arg = "PInt 11 2" and s = "Snapshot (VInt 2) ''int'' 11 None None"
     and vs = "[(''x'', Snapshot (VInt 1) ''int'' 10 None None)]", THEN conjunct1]
   trace_function_return [where self =
       "\<lparr>CodeTracer.frames = [], step_count = 0, target_filename = ''<user_code>'',
         call_depth = 0\<rparr>"
     and frame = "\<lparr>co_filename = ''<user_code>'', co_name = ''g'', f_lineno = 5,
         f_locals = [(''x'', PInt 10 1)]\<rparr>"
     and arg = "PNone 0" and s = "Snapshot VNone ''NoneType'' 0 None None"
     and vs = "[(''x'', Snapshot (VInt 1) ''int'' 10 None None)]", THEN conjunct1]
   trace_function_return [where self =
       "\<lparr>CodeTracer.frames = [], step_count = 0, target_filename = ''<user_code>'',
         call_depth = 1\<rparr>"
     and frame = "\<lparr>co_filename = ''<user_code>'', co_name = ''f'', f_lineno = 2,
         f_locals = []\<rparr>"
     and arg = "PDict 5 [(OtherKey (Inl boom), PInt 6 1)]", THEN conjunct2]
  by (simp add: MAX_STEPS_def serialize_value_int capture_locals_x capture_locals_Nil
      serialize_value_dict_boom)

text \<open>
  C7, as the claim states it, fails. For a function that returns \<^verbatim>\<open>None\<close> the frame's
  \<^verbatim>\<open>return_value\<close> is \<^verbatim>\<open>null\<close>, not the snapshot that \<^verbatim>\<open>serialize_value\<close> gives for \<^verbatim>\<open>None\<close>.
  A \<^verbatim>\<open>return\<close> event whose return value is a \<^verbatim>\<open>dict\<close> with a key that cannot be
  converted, one of another file, and one that arrives after a call and 999 lines, at
  the step limit, append no frame and leave the call depth at 1, not at
  \<open>max 0 (1 - 1)\<close>.
\<close>

theorem trace_function_return_None:
  "trace_function
     \<lparr>CodeTracer.frames = [], step_count = 0, target_filename = ''<user_code>'', call_depth = 1\<rparr>
     (user_frame 5 []) (ReturnEvent (PNone 0)) =
   (Inr True,
    \<lparr>CodeTracer.frames =
       [\<lparr>step = 1, line = 5, event = ''return'', func = ''<module>'', depth = 1,
         variables = [], return_value = Null, exception = None\<rparr>],
     step_count = 1, target_filename = ''<user_code>'', call_depth = 0\<rparr>)
   \<and> serialize_value (PNone 0) 0 = Inr (Snapshot VNone ''NoneType'' 0 None None)
   \<and> trace_function
       \<lparr>CodeTracer.frames = [], step_count = 0, target_filename = ''<user_code>'',
        call_depth = 1\<rparr>
       (user_frame 2 []) (ReturnEvent (PDict 5 [(OtherKey (Inl boom), PInt 6 1)])) =
     (Inl boom,
      \<lparr>CodeTracer.frames = [], step_count = 1, target_filename = ''<user_code>'',
       call_depth = 1\<rparr>)
   \<and> trace_function
       \<lparr>CodeTracer.frames = [], step_count = 0, target_filename = ''<user_code>'',
        call_depth = 1\<rparr>
       \<lparr>co_filename = ''lib.py'', co_name = ''f'', f_lineno = 2, f_locals = []\<rparr>
       (ReturnEvent (PInt 11 2)) =
     (Inr True,
      \<lparr>CodeTracer.frames = [], step_count = 0, target_filename = ''<user_code>'',
       call_depth = 1\<rparr>)
   \<and> tracer_summary (snd (run_events (CodeTracer_init ''<user_code>'')
        ((user_frame 1 [], CallEvent) # replicate 999 (user_frame 2 [], LineEvent) @ []))) =
       (1000, 1000, 1)
   \<and> tracer_summary (snd (run_events (CodeTracer_init ''<user_code>'')
        ((user_frame 1 [], CallEvent) # replicate 999 (user_frame 2 [], LineEvent) @
         [(user_frame 2 [], ReturnEvent (PInt 11 2))]))) = (1000, 1000, 1)"
proof -
  have 1: "trace_function
     \<lparr>CodeTracer.frames = [], step_count = 0, target_filename = ''<user_code>'', call_depth = 1\<rparr>
     (user_frame 5 []) (ReturnEvent (PNone 0)) =
   (Inr True,
    \<lparr>CodeTracer.frames =
       [\<lparr>step = 1, line = 5, event = ''return'', func = ''<module>'', depth = 1,
         variables = [], return_value = Null, exception = None\<rparr>],
     step_count = 1, target_filename = ''<user_code>'', call_depth = 0\<rparr>)"
    by (simp add: trace_function_def user_frame_def MAX_STEPS_def capture_locals_Nil Let_def)
  have 2: "trace_function
       \<lparr>CodeTracer.frames = [], step_count = 0, target_filename = ''<user_code>'',
        call_depth = 1\<rparr>
       (user_frame 2 []) (ReturnEvent (PDict 5 [(OtherKey (Inl boom), PInt 6 1)])) =
     (Inl boom,
      \<lparr>CodeTracer.frames = [], step_count = 1, target_filename = ''<user_code>'',
       call_depth = 1\<rparr>)"
    by (simp add: trace_function_def user_frame_def MAX_STEPS_def capture_locals_Nil Let_def
        serialize_value_dict_boom)
  have 3: "trace_function
       \<lparr>CodeTracer.frames = [], step_count = 0, target_filename = ''<user_code>'',
        call_depth = 1\<rparr>
       \<lparr>co_filename = ''lib.py'', co_name = ''f'', f_lineno = 2, f_locals = []\<rparr>
       (ReturnEvent (PInt 11 2)) =
     (Inr True,
      \<lparr>CodeTracer.frames = [], step_count = 0, target_filename = ''<user_code>'',
       call_depth = 1\<rparr>)"
    by (simp add: trace_function_def MAX_STEPS_def)
  have 4: "tracer_summary (snd (run_events (CodeTracer_init ''<user_code>'')
        ((user_frame 1 [], CallEvent) # replicate 999 (user_frame 2 [], LineEvent) @ rest))) =
       (1000, 1000, 1)" for rest
    using run_events_to_limit [of rest] by auto
  show ?thesis
    using 1 serialize_value_None [of 0] 2 3 4 [of "[]"]
      4 [of "[(user_frame 2 [], ReturnEvent (PInt 11 2))]"]
    by (intro conjI)
qed

subsection \<open>The frames of the C engine\<close>

text \<open>
  C10. Whatever the debugger does, the frames that \<^verbatim>\<open>useCpp.runCode\<close> returns are the
  frames captured by the stepping loop, each with event \<^verbatim>\<open>line\<close>, function \<^verbatim>\<open>main\<close>, depth
  1 and no return value, followed by at most one more frame. That frame is appended
  exactly when the loop ended without a throw and the output is not empty; it has event
  \<^verbatim>\<open>return\<close>, depth 0 and a return value of type \<^verbatim>\<open>stdout\<close> holding the trimmed output,
  where the output is all the text written by the calls of \<^verbatim>\<open>next()\<close> that were made.
  Without a debugger there are no frames.
\<close>

theorem useCpp_frames:
  "case loadJSCPP of
     Inl err \<Rightarrow> frames (fst (useCpp_runCode loadJSCPP hs code)) = []
   | Inr run \<Rightarrow>
       (case run code of
          Debugger dbg \<Rightarrow>
            (case step_loop dbg initial_run_state of
               (thrown, st) \<Rightarrow>
                 (\<forall>f\<in>set (capturedFrames st).
                     event f = ''line'' \<and> func f = ''main'' \<and> depth f = 1 \<and>
                     return_value f = Absent)
                 \<and> outputText st = concat (map (\<lambda>n. written_by (dbg n)) [0..<stepCount st])
                 \<and> frames (fst (useCpp_runCode loadJSCPP hs code)) =
                     capturedFrames st @
                     (if thrown = None \<and> outputText st \<noteq> []
                      then [\<lparr>step = int (stepCount st) + 1, line = 0, event = ''return'',
                              func = ''main'', depth = 0, variables = [],
                              return_value =
                                Present (Snapshot (VStr (trim (outputText st))) ''stdout'' 0
                                           None None),
                              exception = None\<rparr>]
                      else []))
        | RunThrows err \<Rightarrow> frames (fst (useCpp_runCode loadJSCPP hs code)) = []
        | NotDebugger \<Rightarrow> frames (fst (useCpp_runCode loadJSCPP hs code)) = [])"
proof (cases loadJSCPP)
  case (Inl err)
  then show ?thesis by (simp add: useCpp_runCode_not_started)
next
  case (Inr run)
  show ?thesis
  proof (cases "run code")
    case (RunThrows err)
    with Inr show ?thesis by (simp add: useCpp_runCode_not_started)
  next
    case NotDebugger
    with Inr show ?thesis by (simp add: useCpp_runCode_not_started)
  next
    case (Debugger dbg)
    obtain thrown st where sl: "step_loop dbg initial_run_state = (thrown, st)"
      by (cases "step_loop dbg initial_run_state")
    have 1: "\<forall>f\<in>set (capturedFrames st).
               event f = ''line'' \<and> func f = ''main'' \<and> depth f = 1 \<and> return_value f = Absent"
      using step_loop_line_frames [OF sl]
      by (simp add: initial_run_state_def is_line_frame_def)
    have 2: "outputText st = concat (map (\<lambda>n. written_by (dbg n)) [0..<stepCount st])"
      using step_loop_output [OF sl] by (simp add: initial_run_state_def)
    have 3: "frames (fst (useCpp_runCode loadJSCPP hs code)) =
               capturedFrames st @
               (if thrown = None \<and> outputText st \<noteq> []
                then [stdout_frame (stepCount st) (outputText st)] else [])"
      using useCpp_runCode_Debugger [OF Inr Debugger sl, of hs] by (cases thrown) simp_all
    show ?thesis
      using Inr Debugger sl 1 2 3 by (simp add: stdout_frame_def)
  qed
qed

theorem useCpp_frames_witness:
  "frames (fst (useCpp_runCode (Inr (\<lambda>code. Debugger dbg_hello)) useCpp_init ''int main() {}'')) =
     [\<lparr>step = 1, line = 3, event = ''line'', func = ''main'', depth = 1, variables = [],
       return_value = Absent, exception = None\<rparr>,
      \<lparr>step = 3, line = 0, event = ''return'', func = ''main'', depth = 0, variables = [],
       return_value = Present (Snapshot (VStr ''hi'') ''stdout'' 0 None None),
       exception = None\<rparr>]"
  using useCpp_frames [of "Inr (\<lambda>code. Debugger dbg_hello)" useCpp_init "''int main() {}''"]
  by (simp add: step_loop_dbg_hello line_frame_def trim_hi)

subsection \<open>Step numbers\<close>

text \<open>
  C1, as the code has it. In every result of the Python engine (of \<^verbatim>\<open>trace_code\<close> and of
  \<^verbatim>\<open>usePyodide.runCode\<close>) frame \<open>i\<close> carries step \<open>i + 1\<close>. In every result of the C engine
  the step numbers start at 1 or above and increase strictly, so frame \<open>i\<close> carries a
  step of at least \<open>i + 1\<close>; they can leave gaps, because the loop counts every call of
  \<^verbatim>\<open>next()\<close> and pushes a frame only for a turn with a positive line or a captured
  variable.
\<close>

theorem step_numbers:
  "(\<forall>r. trace_code p = Some (Inr r) \<longrightarrow>
        (\<forall>i<length (frames r). step (frames r ! i) = int i + 1))
   \<and> (\<forall>r st'. usePyodide_runCode st code = Some (r, st') \<longrightarrow>
        (\<forall>i<length (frames r). step (frames r ! i) = int i + 1))
   \<and> sorted_wrt (<) (map step (frames (fst (useCpp_runCode loadJSCPP hs ccode))))
   \<and> (\<forall>i<length (frames (fst (useCpp_runCode loadJSCPP hs ccode))).
         int i + 1 \<le> step (frames (fst (useCpp_runCode loadJSCPP hs ccode)) ! i))"
proof -
  have 1: "\<forall>r. trace_code p = Some (Inr r) \<longrightarrow>
             (\<forall>i<length (frames r). step (frames r ! i) = int i + 1)"
    using trace_code_numbered [of p] by (simp add: numbered_def)
  have 2: "\<forall>r st'. usePyodide_runCode st code = Some (r, st') \<longrightarrow>
             (\<forall>i<length (frames r). step (frames r ! i) = int i + 1)"
    using usePyodide_runCode_numbered [of st code] by (simp add: numbered_def)
  show ?thesis
    using 1 2 useCpp_runCode_steps [of loadJSCPP hs ccode] by (intro conjI) simp_all
qed

theorem step_numbers_witness:
  "map_option (map step \<circ> frames \<circ> fst) (usePyodide_runCode
      (usePyodide_init\<lparr>isReady := True, pyodideRef := Some (\<lambda>call. Inr prog_assign)\<rparr>)
      ''x = 1'') = Some [1, 2, 3]
   \<and> map_option (map_sum id (map step \<circ> frames)) (trace_code prog_assign) =
       Some (Inr [1, 2, 3])
   \<and> map step (frames (fst (useCpp_runCode (Inr (\<lambda>code. Debugger dbg_hello)) useCpp_init
        ''int main() {}''))) = [1, 3]"
  using step_numbers [of prog_assign
      "usePyodide_init\<lparr>isReady := True, pyodideRef := Some (\<lambda>call. Inr prog_assign)\<rparr>"
      "''x = 1''" "Inr (\<lambda>code. Debugger dbg_hello)" useCpp_init "''int main() {}''"]
  by (simp add: usePyodide_runCode_def trace_code_prog_assign useCpp_runCode_dbg_hello
      line_frame_def stdout_frame_def)

text \<open>
  C1, as the claim states it, fails in the C engine on a program that prints and ends:
  the turn in which the program ends reports no positive line and pushes no frame, so
  the second frame of the trace carries step 3.
\<close>

theorem useCpp_step_gap:
  "step (frames (fst (useCpp_runCode (Inr (\<lambda>code. Debugger dbg_hello)) useCpp_init
                        ''int main() {}'')) ! 1) = 3"
  by (simp add: useCpp_runCode_dbg_hello stdout_frame_def)

subsection \<open>The step limit\<close>








subsection \<open>Values that cannot be serialized\<close>

text \<open>
  C8, as the code has it. The \<^verbatim>\<open>try\<close> of the serializer stands in its last branch only.
  A value that is none of \<^verbatim>\<open>None\<close>, \<^verbatim>\<open>bool\<close>, \<^verbatim>\<open>int\<close>, \<^verbatim>\<open>float\<close>, \<^verbatim>\<open>str\<close>, \<^verbatim>\<open>list\<close>, \<^verbatim>\<open>tuple\<close>,
  \<^verbatim>\<open>dict\<close>, \<^verbatim>\<open>set\<close> and whose \<^verbatim>\<open>str()\<close> raises is serialized as the snapshot with the value
  \<^verbatim>\<open><unserializable>\<close> and the name of its class as type. When every binding that passes
  the filter serializes (such objects do), \<^verbatim>\<open>capture_locals\<close> returns a mapping that holds
  each of them with its snapshot. An exception that \<^verbatim>\<open>str(k)\<close> raises for one of the
  first 20 keys of a \<^verbatim>\<open>dict\<close>, the entries before it being serialized, is not caught: the
  serializer raises it.
\<close>

theorem unserializable_contained:
  "(d \<le> 3 \<longrightarrow>
      serialize_value (PObject i tn None cl) d =
        Inr (Snapshot (VStr ''<unserializable>'') tn i None None))
   \<and> (distinct (map fst local_vars)
        \<and> (\<forall>(name, v)\<in>set local_vars. kept name v \<longrightarrow> (\<exists>s. serialize_value v 0 = Inr s)) \<longrightarrow>
      (\<exists>captured. capture_locals local_vars = Inr captured \<and>
         (\<forall>(name, v)\<in>set local_vars. kept name v \<longrightarrow>
            (\<exists>s. serialize_value v 0 = Inr s \<and> map_of captured name = Some s))))
   \<and> (d \<le> 3 \<and> j < length kvs \<and> j < 20 \<and> fst (kvs ! j) = OtherKey (Inl e)
        \<and> (\<forall>m<j. \<exists>ks s. key_str (fst (kvs ! m)) = Inr ks \<and>
                          serialize_value (snd (kvs ! m)) (d + 1) = Inr s) \<longrightarrow>
      serialize_value (PDict i kvs) d = Inl e)"
proof (intro conjI impI)
  assume "d \<le> 3"
  then show "serialize_value (PObject i tn None cl) d =
        Inr (Snapshot (VStr ''<unserializable>'') tn i None None)"
    by (rule serialize_value_unserializable)
next
  assume a: "distinct (map fst local_vars)
        \<and> (\<forall>(name, v)\<in>set local_vars. kept name v \<longrightarrow> (\<exists>s. serialize_value v 0 = Inr s))"
  then show "\<exists>captured. capture_locals local_vars = Inr captured \<and>
         (\<forall>(name, v)\<in>set local_vars. kept name v \<longrightarrow>
            (\<exists>s. serialize_value v 0 = Inr s \<and> map_of captured name = Some s))"
    using capture_loop_total [of local_vars "[]"] unfolding capture_locals_def by blast
next
  assume "d \<le> 3 \<and> j < length kvs \<and> j < 20 \<and> fst (kvs ! j) = OtherKey (Inl e)
        \<and> (\<forall>m<j. \<exists>ks s. key_str (fst (kvs ! m)) = Inr ks \<and>
                          serialize_value (snd (kvs ! m)) (d + 1) = Inr s)"
  then show "serialize_value (PDict i kvs) d = Inl e"
    using serialize_value_key_raises [of d j kvs e i] by blast
qed

theorem unserializable_contained_witness:
  "serialize_value (PObject 12 ''Bad'' None False) 0 =
     Inr (Snapshot (VStr ''<unserializable>'') ''Bad'' 12 None None)
   \<and> capture_locals [(''x'', PInt 10 1), (''o'', PObject 12 ''Bad'' None False)] =
     Inr [(''x'', Snapshot (VInt 1) ''int'' 10 None None),
          (''o'', Snapshot (VStr ''<unserializable>'') ''Bad'' 12 None None)]"
  using unserializable_contained [where d = 0 and i = 12 and tn = "''Bad''" and cl = False
      and local_vars = "[(''x'', PInt 10 1), (''o'', PObject 12 ''Bad'' None False)]"
      and j = 0 and kvs = "[(OtherKey (Inl boom), PInt 6 1)]" and e = boom]
  by (simp add: capture_locals_bad_object)

text \<open>
  C8, as the claim states it, fails for a \<^verbatim>\<open>dict\<close> with a key whose \<^verbatim>\<open>__str__\<close> raises: the
  serializer raises instead of returning a snapshot, and so does \<^verbatim>\<open>capture_locals\<close> for a
  frame that holds this \<^verbatim>\<open>dict\<close> beside an integer.
\<close>

theorem serialize_value_bad_key:
  "serialize_value (PDict 5 [(OtherKey (Inl boom), PInt 6 1)]) 0 = Inl boom
   \<and> capture_locals [(''x'', PInt 10 1), (''d'', PDict 5 [(OtherKey (Inl boom), PInt 6 1)])]
       = Inl boom"
proof -
  have 1: "serialize_value (PDict 5 [(OtherKey (Inl boom), PInt 6 1)]) 0 = Inl boom"
    by (subst serialize_value.simps) simp
  then show ?thesis
    by (simp add: capture_locals_def startswith_def IGNORED_VARS_def serialize_value_int)
qed

end
